theory Spec2Isabelle
  imports Main "HOL-Library.AList" "HOL-Library.Sublist"
begin

section \<open>Content model shared by the emitters\<close>

text \<open>
  A slug is a normalised, slash-separated path without leading or trailing slash; it is
  represented by the list of its segments, so that \<open>docs/guide/intro\<close> is
  \<open>[''docs'', ''guide'', ''intro'']\<close> and the path \<open>.\<close> (the root, what
  \<open>path.dirname\<close> returns for a single segment) is the empty list.
\<close>

type_synonym slug = "string list"

text \<open>
  Frontmatter values as the YAML parser delivers them to the scripts. Numbers are modelled
  by the integers: NaN and the infinities are no values of the model, and a difference of
  two numbers has the sign that the subtraction of the floating-point numbers has.
\<close>

datatype jsval =
    JNull
  | JBool bool
  | JNum int
  | JStr string
  | JArr "jsval list"
  | JObj "(string \<times> jsval) list"

text \<open>An object is the list of its own keys with their values, keys distinct, in key order.\<close>

type_synonym jsobject = "(string \<times> jsval) list"

record dates =
  created :: int
  modified :: int
  published :: int

text \<open>The fields of \<open>file.data\<close> (QuartzPluginData) that the custom plugins read.\<close>

record fileData =
  slug :: "slug option"
  frontmatter :: "jsobject option"
  dates :: "dates option"
  toc :: "jsval list option"

text \<open>ProcessedContent is the pair of a syntax tree and a file.\<close>

type_synonym 'tree processedContent = "'tree \<times> fileData"

section \<open>The frontmatter index emitter (frontmatter-index)\<close>

text \<open>What the emitter hands to \<open>write\<close>: a slug, an extension and the content.\<close>

record 'c written =
  w_slug :: slug
  w_ext :: string
  w_content :: 'c

text \<open>
  Modelled from the spec: the framework's \<open>joinSegments\<close> (quartz/util/path) is not among
  the sources. A page is written at \<open>folder/index\<close>: on slugs, which carry no slashes at the
  seams, joining appends the segments.
\<close>

definition joinSegments :: "slug \<Rightarrow> slug \<Rightarrow> slug" where
  "joinSegments a b = a @ b"

text \<open>\<open>file.data.slug!\<close> used as an object key: an absent slug is the key \<open>undefined\<close>.\<close>

definition slugKey :: "fileData \<Rightarrow> slug" where
  "slugKey file = (case slug file of None \<Rightarrow> [''undefined''] | Some s \<Rightarrow> s)"

text \<open>\<open>file.data.frontmatter || {}\<close> and \<open>file.data.toc || []\<close>.\<close>

definition frontmatterOrEmpty :: "fileData \<Rightarrow> jsobject" where
  "frontmatterOrEmpty file = (case frontmatter file of None \<Rightarrow> [] | Some fm \<Rightarrow> fm)"

definition tocOrEmpty :: "fileData \<Rightarrow> jsval list" where
  "tocOrEmpty file = (case toc file of None \<Rightarrow> [] | Some t \<Rightarrow> t)"

text \<open>The object spread \<open>{ ...frontmatter, toc: toc }\<close>.\<close>

definition indexEntry :: "fileData \<Rightarrow> jsobject" where
  "indexEntry file = AList.update ''toc'' (JArr (tocOrEmpty file)) (frontmatterOrEmpty file)"

text \<open>
  The index is a plain object, represented by its own properties in the order of their
  creation. The assignment \<open>frontmatterIndex[slug] = entry\<close> creates the own property
  \<open>slug\<close> or replaces its value, with one exception of the language: for the key
  \<open>__proto__\<close> the assignment sets the prototype of the object and leaves its own
  properties as they are.
\<close>

definition assignProperty ::
  "slug \<Rightarrow> jsobject \<Rightarrow> (slug \<times> jsobject) list \<Rightarrow> (slug \<times> jsobject) list" where
  "assignProperty key entry obj =
     (if key = [''__proto__''] then obj else AList.update key entry obj)"

text \<open>The loop over \<open>content\<close>, threading the index object.\<close>

fun frontmatterIndexLoop ::
  "'tree processedContent list \<Rightarrow> (slug \<times> jsobject) list \<Rightarrow> (slug \<times> jsobject) list" where
  "frontmatterIndexLoop [] frontmatterIndex = frontmatterIndex"
| "frontmatterIndexLoop ((tree, file) # rest) frontmatterIndex =
     (let fm = frontmatterOrEmpty file;
          tc = tocOrEmpty file
      in frontmatterIndexLoop rest
           (if length fm > 0 \<or> length tc > 0
            then assignProperty (slugKey file) (indexEntry file) frontmatterIndex
            else frontmatterIndex))"

text \<open>
  \<open>FrontmatterIndex().emit\<close>: one \<open>write\<close> of the serialised index. The serialiser
  (\<open>JSON.stringify\<close>) is a parameter: it writes the own properties of the object it is
  given, in the enumeration order of the language.
\<close>

definition FrontmatterIndex_emit ::
  "((slug \<times> jsobject) list \<Rightarrow> 'c) \<Rightarrow> 'tree processedContent list \<Rightarrow> 'c written list" where
  "FrontmatterIndex_emit stringify content =
     (let frontmatterIndex = frontmatterIndexLoop content [];
          fp = joinSegments [''static''] [''frontmatterIndex'']
      in [\<lparr>w_slug = fp, w_ext = ''.json'', w_content = stringify frontmatterIndex\<rparr>])"

text \<open>The condition under which a file is entered into the index.\<close>

definition hasIndexData :: "fileData \<Rightarrow> bool" where
  "hasIndexData file \<longleftrightarrow> frontmatterOrEmpty file \<noteq> [] \<or> tocOrEmpty file \<noteq> []"

section \<open>The folder page emitter (custom-folder-page)\<close>

subsection \<open>Path helpers of the framework\<close>

text \<open>
  \<open>path.dirname\<close> of the platform on a slug, the parent of the slug: the slug without its
  last segment; the parent of a single segment, of the empty slug and of \<open>.\<close> is \<open>.\<close>.
\<close>

definition dirname :: "slug \<Rightarrow> slug" where
  "dirname s = butlast s"

text \<open>
  Modelled from the spec: the framework's \<open>isFolderPath\<close> (quartz/util/path) is not among
  the sources. A folder's page has the slug \<open>folder/index\<close>: a slug is the path of a folder
  when it ends in the segment \<open>index\<close> (a slug has no trailing slash).
\<close>

definition isFolderPath :: "slug \<Rightarrow> bool" where
  "isFolderPath s \<longleftrightarrow> s \<noteq> [] \<and> last s = ''index''"

text \<open>
  Modelled from the spec: the framework's \<open>simplifySlug\<close> and \<open>stripSlashes\<close>
  (quartz/util/path) are not among the sources. An explicit content node of a folder is the
  one at \<open>folder/index\<close>: \<open>stripSlashes (simplifySlug s)\<close> drops a trailing \<open>index\<close>
  segment, and the root index becomes the empty slug.
\<close>

definition simplifySlug :: "slug \<Rightarrow> slug" where
  "simplifySlug s = (if s \<noteq> [] \<and> last s = ''index'' then butlast s else s)"

text \<open>\<open>f.slug ?? ""\<close>.\<close>

definition slugOrEmpty :: "fileData \<Rightarrow> slug" where
  "slugOrEmpty f = (case slug f of None \<Rightarrow> [] | Some s \<Rightarrow> s)"

subsection \<open>The comparator \<open>bySortOrderAndAlphabetical\<close>\<close>

datatype dateType = DCreated | DModified | DPublished

text \<open>
  Modelled from the spec: the framework's \<open>getDate\<close> (quartz/components/Date) is not among
  the sources. \<open>getDate(cfg, f)!.getTime()\<close> on a file that has dates is the date of the type
  that the configuration names as default, in milliseconds.
\<close>

definition getDate :: "dateType \<Rightarrow> dates \<Rightarrow> int" where
  "getDate defaultDateType d =
     (case defaultDateType of
        DCreated \<Rightarrow> created d
      | DModified \<Rightarrow> modified d
      | DPublished \<Rightarrow> published d)"

text \<open>\<open>f.frontmatter?.sortorder\<close>; \<open>None\<close> is \<open>undefined\<close>.\<close>

definition sortorderOf :: "fileData \<Rightarrow> jsval option" where
  "sortorderOf f = (case frontmatter f of None \<Rightarrow> None | Some fm \<Rightarrow> map_of fm ''sortorder'')"

text \<open>\<open>typeof v === 'number'\<close>.\<close>

fun isNumber :: "jsval option \<Rightarrow> bool" where
  "isNumber (Some (JNum n)) = True"
| "isNumber _ = False"

fun numberOf :: "jsval option \<Rightarrow> int" where
  "numberOf (Some (JNum n)) = n"
| "numberOf _ = 0"

text \<open>
  \<open>f.frontmatter?.title?.toLowerCase() ?? ""\<close>; the declared type of a title is string.
  The case mapping is the platform's and is a parameter.
\<close>

definition titleLower :: "(string \<Rightarrow> string) \<Rightarrow> fileData \<Rightarrow> string" where
  "titleLower toLowerCase f =
     (case frontmatter f of
        None \<Rightarrow> []
      | Some fm \<Rightarrow> (case map_of fm ''title'' of Some (JStr t) \<Rightarrow> toLowerCase t | _ \<Rightarrow> []))"

text \<open>
  The comparator. \<open>localeCompare\<close> is the platform's string collation (negative, zero or
  positive) and is a parameter, as is \<open>toLowerCase\<close>; \<open>cfg\<close> is the default date type
  of the configuration.
\<close>

definition bySortOrderAndAlphabetical ::
  "(string \<Rightarrow> string) \<Rightarrow> (string \<Rightarrow> string \<Rightarrow> int) \<Rightarrow> dateType \<Rightarrow>
   fileData \<Rightarrow> fileData \<Rightarrow> int" where
  "bySortOrderAndAlphabetical toLowerCase localeCompare cfg f1 f2 =
     (let f1SortOrder = sortorderOf f1;
          f2SortOrder = sortorderOf f2;
          f1IsFolder = isFolderPath (slugOrEmpty f1);
          f2IsFolder = isFolderPath (slugOrEmpty f2)
      in if f1IsFolder \<and> \<not> f2IsFolder then - 1
         else if \<not> f1IsFolder \<and> f2IsFolder then 1
         else if isNumber f1SortOrder \<and> isNumber f2SortOrder
           then numberOf f1SortOrder - numberOf f2SortOrder
         else if isNumber f1SortOrder \<and> \<not> isNumber f2SortOrder then - 1
         else if \<not> isNumber f1SortOrder \<and> isNumber f2SortOrder then 1
         else (case (dates f1, dates f2) of
                 (Some d1, Some d2) \<Rightarrow> getDate cfg d2 - getDate cfg d1
               | (Some d1, None) \<Rightarrow> - 1
               | (None, Some d2) \<Rightarrow> 1
               | (None, None) \<Rightarrow>
                   localeCompare (titleLower toLowerCase f1) (titleLower toLowerCase f2)))"

text \<open>
  \<open>Array.prototype.sort\<close> of the platform with a comparator: a stable sort, here by
  insertion. An element is placed before the first later element that does not have to
  precede it.
\<close>

fun insertBy :: "('a \<Rightarrow> 'a \<Rightarrow> int) \<Rightarrow> 'a \<Rightarrow> 'a list \<Rightarrow> 'a list" where
  "insertBy cmp x [] = [x]"
| "insertBy cmp x (y # ys) = (if cmp x y \<le> 0 then x # y # ys else y # insertBy cmp x ys)"

definition sortBy :: "('a \<Rightarrow> 'a \<Rightarrow> int) \<Rightarrow> 'a list \<Rightarrow> 'a list" where
  "sortBy cmp xs = foldr (insertBy cmp) xs []"

subsection \<open>The file trie and the listing of a folder\<close>

text \<open>The errors that the scripts raise, each with its message.\<close>

datatype error = Error string | TypeError string

text \<open>
  A node of the file trie: whether it is a folder, its full slug, its display name, the
  content attached to it (absent on a folder without an index file) and its children.
\<close>

datatype 'd trieNode =
  TrieNode (isFolder: bool) (nodeSlug: slug) (displayName: string)
           (nodeData: "'d option") (children: "'d trieNode list")

text \<open>The loop of \<open>getMostRecentDates\<close> over the children, threading \<open>maybeDates\<close>.\<close>

fun mostRecentLoop :: "fileData trieNode list \<Rightarrow> dates option \<Rightarrow> dates option" where
  "mostRecentLoop [] maybeDates = maybeDates"
| "mostRecentLoop (child # rest) maybeDates =
     mostRecentLoop rest
       (case nodeData child of
          None \<Rightarrow> maybeDates
        | Some d \<Rightarrow>
            (case dates d of
               None \<Rightarrow> maybeDates
             | Some cd \<Rightarrow>
                 (case maybeDates of
                    None \<Rightarrow> Some cd
                  | Some m \<Rightarrow>
                      Some \<lparr>created = (if created cd > created m then created cd else created m),
                            modified = (if modified cd > modified m then modified cd else modified m),
                            published =
                              (if published cd > published m then published cd else published m)\<rparr>)))"

text \<open>
  \<open>getMostRecentDates\<close>. In this file the name \<open>Date\<close> is bound by the import on line 24
  to the framework's date component (quartz/components/Date), which is not among the
  sources and hides the constructor of the platform: a function component that takes the
  fields \<open>date\<close> and \<open>locale\<close> from its props. The fallback \<open>new Date()\<close> therefore calls
  the component without props, and reading a field of the undefined props raises a
  TypeError; it gives no time.
\<close>

definition getMostRecentDates :: "fileData trieNode \<Rightarrow> error + dates" where
  "getMostRecentDates node =
     (case mostRecentLoop (children node) None of
        Some d \<Rightarrow> Inr d
      | None \<Rightarrow> Inl (TypeError ''Cannot destructure property of undefined''))"

text \<open>The synthetic file that stands for a subfolder without content in a listing.\<close>

definition syntheticFile :: "fileData trieNode \<Rightarrow> error + fileData" where
  "syntheticFile node =
     (case getMostRecentDates node of
        Inl e \<Rightarrow> Inl e
      | Inr d \<Rightarrow>
          Inr \<lparr>slug = Some (nodeSlug node),
               frontmatter = Some [(''title'', JStr (displayName node)), (''tags'', JArr [])],
               dates = Some d,
               toc = None\<rparr>)"

text \<open>
  \<open>allPagesInFolder\<close>: the children mapped to files, the undefined ones dropped; an error
  raised for a child ends the mapping.
\<close>

definition pageOfChild :: "bool \<Rightarrow> fileData trieNode \<Rightarrow> error + fileData option" where
  "pageOfChild showSubfolders node =
     (case nodeData node of
        Some d \<Rightarrow> Inr (Some d)
      | None \<Rightarrow>
          (if isFolder node \<and> showSubfolders
           then (case syntheticFile node of Inl e \<Rightarrow> Inl e | Inr page \<Rightarrow> Inr (Some page))
           else Inr None))"

fun pagesOfChildren :: "bool \<Rightarrow> fileData trieNode list \<Rightarrow> error + fileData list" where
  "pagesOfChildren showSubfolders [] = Inr []"
| "pagesOfChildren showSubfolders (node # rest) =
     (case pageOfChild showSubfolders node of
        Inl e \<Rightarrow> Inl e
      | Inr page \<Rightarrow>
          (case pagesOfChildren showSubfolders rest of
             Inl e \<Rightarrow> Inl e
           | Inr pages \<Rightarrow> Inr (case page of None \<Rightarrow> pages | Some p \<Rightarrow> p # pages)))"

definition allPagesInFolder :: "bool \<Rightarrow> fileData trieNode \<Rightarrow> error + fileData list" where
  "allPagesInFolder showSubfolders folder = pagesOfChildren showSubfolders (children folder)"

subsection \<open>Folder sets, folder descriptions and the two emit passes\<close>

text \<open>
  A JavaScript \<open>Set\<close>: its members in insertion order, each once. A \<open>Record\<close> keyed by
  folder is an association list in insertion order; assigning to a key that is present
  keeps its position. (JavaScript enumerates keys that are array indices before the
  others; only the order of the emitted pages depends on that.)
\<close>

definition setAdd :: "'a list \<Rightarrow> 'a \<Rightarrow> 'a list" where
  "setAdd s x = (if x \<in> set s then s else s @ [x])"

definition newSet :: "'a list \<Rightarrow> 'a list" where
  "newSet xs = foldl setAdd [] xs"

text \<open>\<open>_getFolders\<close>: the parent of the slug and the chain of its parents up to \<open>.\<close>.\<close>

function getFoldersLoop :: "slug \<Rightarrow> slug list \<Rightarrow> slug list" where
  "getFoldersLoop folderName parentFolderNames =
     (if folderName \<noteq> []
      then (let folderName' = dirname folderName
            in getFoldersLoop folderName' (parentFolderNames @ [folderName']))
      else parentFolderNames)"
  by pat_completeness auto
termination
  by (relation "measure (\<lambda>(folderName, parentFolderNames). length folderName)")
     (auto simp: dirname_def)

declare getFoldersLoop.simps [simp del]

definition getFolders :: "slug \<Rightarrow> slug list" where
  "getFolders s = (let folderName = dirname s in getFoldersLoop folderName [folderName])"

text \<open>The filter \<open>folderName !== "." && folderName !== "tags"\<close>.\<close>

definition keepFolder :: "slug \<Rightarrow> bool" where
  "keepFolder folderName \<longleftrightarrow> folderName \<noteq> [] \<and> folderName \<noteq> [''tags'']"

text \<open>A slug written out with slashes, as a template literal prints it.\<close>

fun slugString :: "slug \<Rightarrow> string" where
  "slugString [] = []"
| "slugString [s] = s"
| "slugString (s # t # rest) = s @ ''/'' @ slugString (t # rest)"

text \<open>
  The default description of a folder in \<open>computeFolderInfo\<close>. The framework's
  \<open>defaultProcessedContent\<close> (quartz/plugins/vfile) is not among the sources and is
  modelled from the spec: it pairs an empty root tree (a parameter) with a file that carries
  the data it is given, here the slug of the index page and the title built from
  \<open>folderLabel\<close>, the translation \<open>i18n(locale).pages.folderContent.folder\<close>.
\<close>

definition defaultFolderContent :: "'tree \<Rightarrow> string \<Rightarrow> slug \<Rightarrow> 'tree processedContent" where
  "defaultFolderContent emptyRoot folderLabel folder =
     (emptyRoot,
      \<lparr>slug = Some (joinSegments folder [''index'']),
       frontmatter = Some [(''title'', JStr (folderLabel @ '': '' @ slugString folder)),
                           (''tags'', JArr [])],
       dates = None,
       toc = None\<rparr>)"

text \<open>
  The second loop of \<open>computeFolderInfo\<close>. A file without a slug makes
  \<open>simplifySlug\<close> raise a TypeError.
\<close>

fun updateFolderInfo ::
  "slug list \<Rightarrow> 'tree processedContent list \<Rightarrow> (slug \<times> 'tree processedContent) list \<Rightarrow>
   error + (slug \<times> 'tree processedContent) list" where
  "updateFolderInfo folders [] folderInfo = Inr folderInfo"
| "updateFolderInfo folders ((tree, file) # rest) folderInfo =
     (case slug file of
        None \<Rightarrow> Inl (TypeError ''Cannot read properties of undefined'')
      | Some s \<Rightarrow>
          (let s' = simplifySlug s
           in updateFolderInfo folders rest
                (if s' \<in> set folders then AList.update s' (tree, file) folderInfo
                 else folderInfo)))"

definition computeFolderInfo ::
  "'tree \<Rightarrow> string \<Rightarrow> slug list \<Rightarrow> 'tree processedContent list \<Rightarrow>
   error + (slug \<times> 'tree processedContent) list" where
  "computeFolderInfo emptyRoot folderLabel folders content =
     updateFolderInfo folders content
       (map (\<lambda>folder. (folder, defaultFolderContent emptyRoot folderLabel folder)) folders)"

text \<open>
  \<open>processFolderInfo\<close>: one page per folder, written at \<open>folder/index\<close> with extension
  \<open>.html\<close>. The renderer is a parameter; it receives the slug, the tree, the data of the
  folder's file and all files.
\<close>

definition processFolderInfo ::
  "(slug \<Rightarrow> 'tree \<Rightarrow> fileData \<Rightarrow> fileData list \<Rightarrow> 'page) \<Rightarrow>
   (slug \<times> 'tree processedContent) list \<Rightarrow> fileData list \<Rightarrow> 'page written list" where
  "processFolderInfo renderPage folderInfo allFiles =
     map (\<lambda>(folder, (tree, file)).
            (let pageSlug = joinSegments folder [''index'']
             in \<lparr>w_slug = pageSlug, w_ext = ''.html'',
                 w_content = renderPage pageSlug tree file allFiles\<rparr>))
         folderInfo"

text \<open>The folders of a content collection, as \<open>emit\<close> computes them.\<close>

definition allFolders :: "fileData list \<Rightarrow> slug list" where
  "allFolders allFiles =
     newSet (concat (map (\<lambda>data. case slug data of
                                     None \<Rightarrow> []
                                   | Some s \<Rightarrow> filter keepFolder (getFolders s))
                         allFiles))"

definition emit ::
  "(slug \<Rightarrow> 'tree \<Rightarrow> fileData \<Rightarrow> fileData list \<Rightarrow> 'page) \<Rightarrow> 'tree \<Rightarrow> string \<Rightarrow>
   'tree processedContent list \<Rightarrow> error + 'page written list" where
  "emit renderPage emptyRoot folderLabel content =
     (let allFiles = map snd content;
          folders = allFolders allFiles
      in case computeFolderInfo emptyRoot folderLabel folders content of
           Inl e \<Rightarrow> Inl e
         | Inr folderInfo \<Rightarrow> Inr (processFolderInfo renderPage folderInfo allFiles))"

datatype changeType = Add | Change | Delete

record changeEvent =
  ce_type :: changeType
  ce_path :: string
  ce_file :: "fileData option"

text \<open>The loop of \<open>partialEmit\<close> over the change events, threading \<open>affectedFolders\<close>.\<close>

fun affectedLoop :: "changeEvent list \<Rightarrow> slug list \<Rightarrow> slug list" where
  "affectedLoop [] affectedFolders = affectedFolders"
| "affectedLoop (changeEvent # rest) affectedFolders =
     (case ce_file changeEvent of
        None \<Rightarrow> affectedLoop rest affectedFolders
      | Some file \<Rightarrow>
          (let folders = filter keepFolder (getFolders (slugOrEmpty file))
           in affectedLoop rest (foldl setAdd affectedFolders folders)))"

definition partialEmit ::
  "(slug \<Rightarrow> 'tree \<Rightarrow> fileData \<Rightarrow> fileData list \<Rightarrow> 'page) \<Rightarrow> 'tree \<Rightarrow> string \<Rightarrow>
   'tree processedContent list \<Rightarrow> changeEvent list \<Rightarrow> error + 'page written list" where
  "partialEmit renderPage emptyRoot folderLabel content changeEvents =
     (let allFiles = map snd content;
          affectedFolders = affectedLoop changeEvents []
      in if length affectedFolders > 0
         then (case computeFolderInfo emptyRoot folderLabel affectedFolders content of
                 Inl e \<Rightarrow> Inl e
               | Inr folderInfo \<Rightarrow> Inr (processFolderInfo renderPage folderInfo allFiles))
         else Inr [])"

section \<open>The navigation tree explorer (custom-explorer)\<close>

text \<open>
  \<open>aSortOrder - bSortOrder\<close> on two values that are not null. The conversion of a value
  to a number is JavaScript's \<open>ToNumber\<close> and is a parameter; \<open>None\<close> is NaN.
\<close>

definition jsMinus :: "(jsval \<Rightarrow> int option) \<Rightarrow> jsval \<Rightarrow> jsval \<Rightarrow> int option" where
  "jsMinus toNumber a b =
     (case (toNumber a, toNumber b) of (Some x, Some y) \<Rightarrow> Some (x - y) | _ \<Rightarrow> None)"

text \<open>
  \<open>getSortOrder\<close>: null (\<open>None\<close>) for a folder; otherwise
  \<open>frontmatterCache.get(slug)?.sortorder ?? null\<close>.
\<close>

definition getSortOrder :: "(slug \<rightharpoonup> jsobject) \<Rightarrow> 'd trieNode \<Rightarrow> jsval option" where
  "getSortOrder frontmatterCache node =
     (if isFolder node then None
      else (case frontmatterCache (nodeSlug node) of
              None \<Rightarrow> None
            | Some fm \<Rightarrow>
                (case map_of fm ''sortorder'' of
                   None \<Rightarrow> None
                 | Some JNull \<Rightarrow> None
                 | Some v \<Rightarrow> Some v)))"

text \<open>
  The comparator made by \<open>createCustomSortFn\<close>. \<open>localeCompareBase\<close> is the platform's
  collation with the options \<open>numeric: true, sensitivity: "base"\<close>, a parameter. The
  result is a JavaScript number, \<open>None\<close> being NaN.
\<close>

definition createCustomSortFn ::
  "(string \<Rightarrow> string \<Rightarrow> int) \<Rightarrow> (jsval \<Rightarrow> int option) \<Rightarrow> (slug \<rightharpoonup> jsobject) \<Rightarrow>
   'd trieNode \<Rightarrow> 'd trieNode \<Rightarrow> int option" where
  "createCustomSortFn localeCompareBase toNumber frontmatterCache a b =
     (let aSortOrder = getSortOrder frontmatterCache a;
          bSortOrder = getSortOrder frontmatterCache b
      in if (\<not> isFolder a \<and> \<not> isFolder b) \<or> (isFolder a \<and> isFolder b)
         then (case (aSortOrder, bSortOrder) of
                 (Some x, Some y) \<Rightarrow> jsMinus toNumber x y
               | (Some x, None) \<Rightarrow> Some (- 1)
               | (None, Some y) \<Rightarrow> Some 1
               | (None, None) \<Rightarrow> Some (localeCompareBase (displayName a) (displayName b)))
         else if \<not> isFolder a \<and> isFolder b then Some 1
         else Some (- 1))"

text \<open>
  The cache as \<open>fetchFrontmatterData\<close> fills it from the frontmatter index: one entry per
  key of the index.
\<close>

definition cacheOfIndex :: "(slug \<times> jsobject) list \<Rightarrow> (slug \<rightharpoonup> jsobject)" where
  "cacheOfIndex frontmatterIndex = map_of frontmatterIndex"

section \<open>A concrete platform for examples\<close>

text \<open>
  Where an example needs concrete platform functions, it uses these: lower-casing of the
  ASCII letters, comparison of strings by character code, and the number conversion on
  numbers.
\<close>

definition asciiLowerChar :: "char \<Rightarrow> char" where
  "asciiLowerChar c =
     (let n = (of_char c :: nat) in if 65 \<le> n \<and> n \<le> 90 then char_of (n + 32) else c)"

definition asciiLower :: "string \<Rightarrow> string" where
  "asciiLower s = map asciiLowerChar s"

fun codeCompare :: "string \<Rightarrow> string \<Rightarrow> int" where
  "codeCompare [] [] = 0"
| "codeCompare [] (b # bs) = - 1"
| "codeCompare (a # as) [] = 1"
| "codeCompare (a # as) (b # bs) =
     (if (of_char a :: nat) < of_char b then - 1
      else if (of_char b :: nat) < of_char a then 1
      else codeCompare as bs)"

definition codeCompareBase :: "string \<Rightarrow> string \<Rightarrow> int" where
  "codeCompareBase a b = codeCompare (asciiLower a) (asciiLower b)"

fun numberToNumber :: "jsval \<Rightarrow> int option" where
  "numberToNumber (JNum n) = Some n"
| "numberToNumber v = None"

section \<open>The specification's wording of the ordering and of folder dates\<close>

text \<open>
  The precedence chain as the specification words it, as a sign: folders before files;
  within one kind a numeric sort order ascending; a node with a sort order before one
  without; among nodes without sort order the dated before the undated and the more
  recently modified first; the comparison of the lower-cased display names as the final
  tie-break of the chain.
\<close>

definition spec_chain ::
  "(string \<Rightarrow> string) \<Rightarrow> (string \<Rightarrow> string \<Rightarrow> int) \<Rightarrow> fileData \<Rightarrow> fileData \<Rightarrow> int" where
  "spec_chain toLowerCase localeCompare f1 f2 =
     (let s1 = sortorderOf f1; s2 = sortorderOf f2;
          k1 = isFolderPath (slugOrEmpty f1); k2 = isFolderPath (slugOrEmpty f2)
      in if k1 \<and> \<not> k2 then - 1
         else if \<not> k1 \<and> k2 then 1
         else if isNumber s1 \<and> isNumber s2 \<and> numberOf s1 \<noteq> numberOf s2
           then sgn (numberOf s1 - numberOf s2)
         else if isNumber s1 \<and> \<not> isNumber s2 then - 1
         else if \<not> isNumber s1 \<and> isNumber s2 then 1
         else (case (if isNumber s1 then None else dates f1,
                     if isNumber s2 then None else dates f2) of
                 (Some d1, None) \<Rightarrow> - 1
               | (None, Some d2) \<Rightarrow> 1
               | (Some d1, Some d2) \<Rightarrow>
                   (if modified d1 \<noteq> modified d2 then sgn (modified d2 - modified d1)
                    else sgn (localeCompare (titleLower toLowerCase f1)
                                            (titleLower toLowerCase f2)))
               | (None, None) \<Rightarrow>
                   sgn (localeCompare (titleLower toLowerCase f1)
                                      (titleLower toLowerCase f2))))"

text \<open>
  The chain with the name comparison applied only between nodes that have neither a
  numeric sort order nor dates: nodes with equal sort orders tie, and so do nodes without
  sort order whose dates are equal.
\<close>

definition precedence ::
  "(string \<Rightarrow> string) \<Rightarrow> (string \<Rightarrow> string \<Rightarrow> int) \<Rightarrow> dateType \<Rightarrow>
   fileData \<Rightarrow> fileData \<Rightarrow> int" where
  "precedence toLowerCase localeCompare cfg f1 f2 =
     (let s1 = sortorderOf f1; s2 = sortorderOf f2;
          k1 = isFolderPath (slugOrEmpty f1); k2 = isFolderPath (slugOrEmpty f2)
      in if k1 \<noteq> k2 then (if k1 then - 1 else 1)
         else if isNumber s1 \<or> isNumber s2
           then (if \<not> isNumber s2 then - 1
                 else if \<not> isNumber s1 then 1
                 else sgn (numberOf s1 - numberOf s2))
         else (case (dates f1, dates f2) of
                 (Some d1, None) \<Rightarrow> - 1
               | (None, Some d2) \<Rightarrow> 1
               | (Some d1, Some d2) \<Rightarrow> sgn (getDate cfg d2 - getDate cfg d1)
               | (None, None) \<Rightarrow>
                   sgn (localeCompare (titleLower toLowerCase f1)
                                      (titleLower toLowerCase f2))))"

text \<open>The element-wise most recent of a list of dates, if there is one.\<close>

fun maxDates :: "dates list \<Rightarrow> dates option" where
  "maxDates [] = None"
| "maxDates (d # ds) =
     (case maxDates ds of
        None \<Rightarrow> Some d
      | Some m \<Rightarrow> Some \<lparr>created = max (created d) (created m),
                        modified = max (modified d) (modified m),
                        published = max (published d) (published m)\<rparr>)"

text \<open>The dates of the nodes of a list that carry content with dates, in order.\<close>

definition datesOfNodes :: "fileData trieNode list \<Rightarrow> dates list" where
  "datesOfNodes cs =
     concat (map (\<lambda>child. case nodeData child of
                             None \<Rightarrow> []
                           | Some d \<Rightarrow> (case dates d of None \<Rightarrow> [] | Some cd \<Rightarrow> [cd]))
                 cs)"

text \<open>The dates of the direct children of a node that carry content with dates.\<close>

definition datedChildren :: "fileData trieNode \<Rightarrow> dates list" where
  "datedChildren node = datesOfNodes (children node)"

text \<open>
  The dates of a folder as the specification words them: a child contributes its explicit
  dates, and a child folder without explicit dates contributes the dates synthesized from
  its own children in the same way; where no child contributes dates, the current time
  \<open>now\<close> stands for each of the three.
\<close>

fun spec_datesOf :: "fileData trieNode \<Rightarrow> dates option" where
  "spec_datesOf (TrieNode isF sl dn dat cs) =
     (case (case dat of None \<Rightarrow> None | Some d \<Rightarrow> dates d) of
        Some ds \<Rightarrow> Some ds
      | None \<Rightarrow>
          (if isF
           then maxDates (concat (map (\<lambda>c. case spec_datesOf c of None \<Rightarrow> [] | Some d \<Rightarrow> [d]) cs))
           else None))"

definition spec_folderDates :: "int \<Rightarrow> fileData trieNode \<Rightarrow> dates" where
  "spec_folderDates now node =
     (case maxDates (concat (map (\<lambda>c. case spec_datesOf c of None \<Rightarrow> [] | Some d \<Rightarrow> [d])
                                 (children node))) of
        Some d \<Rightarrow> d
      | None \<Rightarrow> \<lparr>created = now, modified = now, published = now\<rparr>)"

text \<open>
  The ancestor folders of the files named by a batch of change events, the root and the
  tag folder left out.
\<close>

definition ancestorClosure :: "changeEvent list \<Rightarrow> slug set" where
  "ancestorClosure changeEvents =
     {folder. \<exists>ev file. ev \<in> set changeEvents \<and> ce_file ev = Some file \<and>
                strict_prefix folder (slugOrEmpty file) \<and> keepFolder folder}"

text \<open>The page written at \<open>folder/index\<close>, if there is one.\<close>

definition pageFor :: "'page written list \<Rightarrow> slug \<Rightarrow> 'page written option" where
  "pageFor pages folder = find (\<lambda>w. w_slug w = joinSegments folder [''index'']) pages"

text \<open>
  The content node that the second loop of \<open>computeFolderInfo\<close> leaves in a folder's
  description: the last one whose simplified slug is the folder, if there is one.
\<close>

fun explicitContent :: "'tree processedContent list \<Rightarrow> slug \<Rightarrow> 'tree processedContent option" where
  "explicitContent [] folder = None"
| "explicitContent ((tree, file) # rest) folder =
     (case explicitContent rest folder of
        Some tf \<Rightarrow> Some tf
      | None \<Rightarrow>
          (if map_option simplifySlug (slug file) = Some folder then Some (tree, file) else None))"

definition folderEntry ::
  "'tree \<Rightarrow> string \<Rightarrow> 'tree processedContent list \<Rightarrow> slug \<Rightarrow> 'tree processedContent" where
  "folderEntry emptyRoot folderLabel content folder =
     (case explicitContent content folder of
        Some tf \<Rightarrow> tf
      | None \<Rightarrow> defaultFolderContent emptyRoot folderLabel folder)"

text \<open>The page of one folder, as a function of the folder and the content collection.\<close>

definition folderPage ::
  "(slug \<Rightarrow> 'tree \<Rightarrow> fileData \<Rightarrow> fileData list \<Rightarrow> 'page) \<Rightarrow> 'tree \<Rightarrow> string \<Rightarrow>
   'tree processedContent list \<Rightarrow> slug \<Rightarrow> 'page written" where
  "folderPage renderPage emptyRoot folderLabel content folder =
     \<lparr>w_slug = joinSegments folder [''index''], w_ext = ''.html'',
      w_content = renderPage (joinSegments folder [''index''])
                    (fst (folderEntry emptyRoot folderLabel content folder))
                    (snd (folderEntry emptyRoot folderLabel content folder))
                    (map snd content)\<rparr>"

text \<open>
  A trie node and a file describe the same sibling under a frontmatter cache when they
  agree on being a folder and the cache holds, for the node's slug, the sort order of the
  file's frontmatter.
\<close>

definition sameSibling :: "(slug \<rightharpoonup> jsobject) \<Rightarrow> 'd trieNode \<Rightarrow> fileData \<Rightarrow> bool" where
  "sameSibling frontmatterCache node f \<longleftrightarrow>
     isFolder node = isFolderPath (slugOrEmpty f) \<and>
     (case frontmatterCache (nodeSlug node) of
        None \<Rightarrow> None
      | Some fm \<Rightarrow> map_of fm ''sortorder'') = sortorderOf f"

text \<open>A sort order that is a number, null or absent.\<close>

fun numberOrAbsent :: "jsval option \<Rightarrow> bool" where
  "numberOrAbsent None = True"
| "numberOrAbsent (Some JNull) = True"
| "numberOrAbsent (Some (JNum n)) = True"
| "numberOrAbsent (Some v) = False"

section \<open>The site configuration and example inputs\<close>

text \<open>
  Files for the frontmatter index: \<open>guide\<close> with a frontmatter key, \<open>notes\<close> with neither
  frontmatter nor headings, \<open>outline\<close> with one heading and no frontmatter, a file whose
  slug is \<open>__proto__\<close>, and a file whose frontmatter has a field \<open>toc\<close>.
\<close>

definition introHeading :: jsval where
  "introHeading = JObj [(''depth'', JNum 0), (''text'', JStr ''Intro''), (''slug'', JStr ''intro'')]"

definition guideFile :: fileData where
  "guideFile = \<lparr>slug = Some [''guide''], frontmatter = Some [(''sortorder'', JNum 1)],
                dates = None, toc = None\<rparr>"

definition notesFile :: fileData where
  "notesFile = \<lparr>slug = Some [''notes''], frontmatter = None, dates = None, toc = Some []\<rparr>"

definition outlineFile :: fileData where
  "outlineFile = \<lparr>slug = Some [''outline''], frontmatter = None, dates = None,
                  toc = Some [introHeading]\<rparr>"

definition protoFile :: fileData where
  "protoFile = \<lparr>slug = Some [''__proto__''], frontmatter = Some [(''title'', JStr ''Proto'')],
                dates = None, toc = None\<rparr>"

definition tocFieldFile :: fileData where
  "tocFieldFile = \<lparr>slug = Some [''page''], frontmatter = Some [(''toc'', JBool False)],
                   dates = None, toc = Some [introHeading]\<rparr>"

text \<open>\<open>defaultDateType: "modified"\<close> of the site configuration (quartz.config).\<close>

definition configuredDateType :: dateType where
  "configuredDateType = DModified"

text \<open>
  The files of the ordering scenario: \<open>a/x\<close> with sort order 2, \<open>a/y\<close> with sort order
  1, and \<open>a/z\<close> without sort order, modified on 2024-01-01 (in milliseconds).
\<close>

definition exampleX :: fileData where
  "exampleX = \<lparr>slug = Some [''a'', ''x''],
               frontmatter = Some [(''title'', JStr ''x''), (''sortorder'', JNum 2)],
               dates = None, toc = None\<rparr>"

definition exampleY :: fileData where
  "exampleY = \<lparr>slug = Some [''a'', ''y''],
               frontmatter = Some [(''title'', JStr ''y''), (''sortorder'', JNum 1)],
               dates = None, toc = None\<rparr>"

definition exampleZ :: fileData where
  "exampleZ = \<lparr>slug = Some [''a'', ''z''],
               frontmatter = Some [(''title'', JStr ''z'')],
               dates = Some \<lparr>created = 1704067200000, modified = 1704067200000,
                             published = 1704067200000\<rparr>,
               toc = None\<rparr>"

text \<open>Two files with the same sort order, listed with the title \<open>b\<close> first.\<close>

definition tieB :: fileData where
  "tieB = \<lparr>slug = Some [''a'', ''b''],
           frontmatter = Some [(''title'', JStr ''b''), (''sortorder'', JNum 1)],
           dates = None, toc = None\<rparr>"

definition tieA :: fileData where
  "tieA = \<lparr>slug = Some [''a'', ''a''],
           frontmatter = Some [(''title'', JStr ''a''), (''sortorder'', JNum 1)],
           dates = None, toc = None\<rparr>"

text \<open>
  Two dated files without sort order: \<open>alpha\<close>, modified at time 1, and \<open>beta\<close>, modified
  at time 2, with the trie nodes the explorer has for them.
\<close>

definition alphaFile :: fileData where
  "alphaFile = \<lparr>slug = Some [''a'', ''alpha''],
                frontmatter = Some [(''title'', JStr ''alpha'')],
                dates = Some \<lparr>created = 1, modified = 1, published = 1\<rparr>, toc = None\<rparr>"

definition betaFile :: fileData where
  "betaFile = \<lparr>slug = Some [''a'', ''beta''],
               frontmatter = Some [(''title'', JStr ''beta'')],
               dates = Some \<lparr>created = 2, modified = 2, published = 2\<rparr>, toc = None\<rparr>"

definition alphaNode :: "unit trieNode" where
  "alphaNode = TrieNode False [''a'', ''alpha''] ''alpha'' (Some ()) []"

definition betaNode :: "unit trieNode" where
  "betaNode = TrieNode False [''a'', ''beta''] ''beta'' (Some ()) []"

definition exampleCache :: "slug \<rightharpoonup> jsobject" where
  "exampleCache = cacheOfIndex (frontmatterIndexLoop [((), alphaFile), ((), betaFile)] [])"

text \<open>
  A folder \<open>docs\<close> without index file that holds the page \<open>docs/intro\<close>, dated
  (1, 2, 3), and the folder \<open>docs/sub\<close>, also without index file, which holds one page
  dated (10, 20, 30).
\<close>

definition subPage :: fileData where
  "subPage = \<lparr>slug = Some [''docs'', ''sub'', ''page''],
              frontmatter = Some [(''title'', JStr ''page'')],
              dates = Some \<lparr>created = 10, modified = 20, published = 30\<rparr>, toc = None\<rparr>"

definition introPage :: fileData where
  "introPage = \<lparr>slug = Some [''docs'', ''intro''],
                frontmatter = Some [(''title'', JStr ''intro'')],
                dates = Some \<lparr>created = 1, modified = 2, published = 3\<rparr>, toc = None\<rparr>"

definition subNode :: "fileData trieNode" where
  "subNode = TrieNode True [''docs'', ''sub'', ''index''] ''sub'' None
               [TrieNode False [''docs'', ''sub'', ''page''] ''page'' (Some subPage) []]"

definition docsNode :: "fileData trieNode" where
  "docsNode = TrieNode True [''docs'', ''index''] ''docs'' None
                [TrieNode False [''docs'', ''intro''] ''intro'' (Some introPage) [], subNode]"

text \<open>A change event for the file \<open>docs/a\<close>, which has been deleted.\<close>

definition deletedFile :: fileData where
  "deletedFile = \<lparr>slug = Some [''docs'', ''a''], frontmatter = Some [(''title'', JStr ''a'')],
                  dates = None, toc = None\<rparr>"

definition deleteEvent :: changeEvent where
  "deleteEvent = \<lparr>ce_type = Delete, ce_path = ''docs/a.md'', ce_file = Some deletedFile\<rparr>"

text \<open>A file \<open>docs\<close> beside the folder \<open>docs\<close>, which has no index file.\<close>

definition docsFile :: fileData where
  "docsFile = \<lparr>slug = Some [''docs''], frontmatter = Some [(''title'', JStr ''Docs page'')],
               dates = None, toc = None\<rparr>"

text \<open>A renderer for examples: the page is the title of the folder's file.\<close>

definition titleRenderer :: "slug \<Rightarrow> unit \<Rightarrow> fileData \<Rightarrow> fileData list \<Rightarrow> jsval option" where
  "titleRenderer pageSlug tree file allFiles =
     (case frontmatter file of None \<Rightarrow> None | Some fm \<Rightarrow> map_of fm ''title'')"

section \<open>The build script (build.js)\<close>

subsection \<open>The ignore filter\<close>

text \<open>
  A path relative to the working directory is the list of its segments; the working
  directory itself is the empty list.
\<close>

type_synonym path = "string list"

text \<open>
  Modelled from the spec: the ignore library that the script imports is not among the
  sources; its filter has the semantics of the ignore-file grammar, where the last matching
  rule wins and a negated pattern re-includes. The filter object is the list of its rules
  in the order in which they were added. A rule is a pattern and whether it is negated
  (written with a leading exclamation mark).
\<close>

record rule =
  negative :: bool
  pattern :: string

definition createRule :: "string \<Rightarrow> rule" where
  "createRule line =
     (case line of
        c # rest \<Rightarrow> (if c = CHR ''!'' then \<lparr>negative = True, pattern = rest\<rparr>
                    else \<lparr>negative = False, pattern = line\<rparr>)
      | [] \<Rightarrow> \<lparr>negative = False, pattern = line\<rparr>)"

text \<open>A line is taken as a pattern unless it is blank or a comment.\<close>

definition checkPattern :: "string \<Rightarrow> bool" where
  "checkPattern line \<longleftrightarrow>
     filter (\<lambda>c. c \<noteq> CHR '' '') line \<noteq> [] \<and> take 1 line \<noteq> ''#''"

text \<open>\<open>ig.add\<close> of the lines of a text (one line for a single pattern).\<close>

definition addPatterns :: "string list \<Rightarrow> rule list \<Rightarrow> rule list" where
  "addPatterns lines rules = rules @ map createRule (filter checkPattern lines)"

text \<open>
  Whether a pattern matches a path is the library's glob matching, a parameter
  \<open>matches\<close>; the flag of a path says that it is tested as a directory (written with a
  trailing slash). Over the rules the last matching rule wins.
\<close>

definition testOne :: "(string \<Rightarrow> path \<times> bool \<Rightarrow> bool) \<Rightarrow> rule list \<Rightarrow> path \<times> bool \<Rightarrow> bool" where
  "testOne matches rules p =
     foldl (\<lambda>ignored r. if matches (pattern r) p then \<not> negative r else ignored) False rules"

text \<open>
  The test of a path, given by its segments in reverse: a path below an ignored directory
  is ignored; otherwise the rules are tested on the path itself.
\<close>

fun testChain ::
  "(string \<Rightarrow> path \<times> bool \<Rightarrow> bool) \<Rightarrow> rule list \<Rightarrow> string list \<Rightarrow> bool \<Rightarrow> bool" where
  "testChain matches rules [] isDir = False"
| "testChain matches rules (name # parentRev) isDir =
     (if parentRev = [] then testOne matches rules ([name], isDir)
      else if testChain matches rules parentRev True then True
      else testOne matches rules (rev (name # parentRev), isDir))"

text \<open>\<open>ig.ignores(relativePath)\<close>, the path written without trailing slash.\<close>

definition ignores :: "(string \<Rightarrow> path \<times> bool \<Rightarrow> bool) \<Rightarrow> rule list \<Rightarrow> path \<Rightarrow> bool" where
  "ignores matches rules p = testChain matches rules (rev p) False"

text \<open>
  A matcher for patterns without wildcard characters, for examples: a pattern with a
  trailing slash matches directories only; a pattern without inner slash matches a path
  by its last segment, at any depth; a pattern that starts with \<open>**/\<close> matches the paths
  that end in the rest; any other pattern matches the path it spells from the root.
\<close>

fun splitSlash :: "string \<Rightarrow> string list" where
  "splitSlash [] = [[]]"
| "splitSlash (c # cs) =
     (if c = CHR ''/'' then [] # splitSlash cs
      else (case splitSlash cs of
              w # ws \<Rightarrow> (c # w) # ws
            | [] \<Rightarrow> [[c]]))"

definition literalMatch :: "string \<Rightarrow> path \<times> bool \<Rightarrow> bool" where
  "literalMatch pat p =
     (let dirOnly = (pat \<noteq> [] \<and> last pat = CHR ''/'');
          body = splitSlash (if dirOnly then butlast pat else pat);
          segs = fst p
      in (if dirOnly then snd p else True) \<and>
         (case body of
            [name] \<Rightarrow> segs \<noteq> [] \<and> last segs = name
          | first # rest \<Rightarrow>
              (if first = ''**'' then suffix rest segs
               else if first = [] then segs = rest
               else segs = first # rest)
          | [] \<Rightarrow> False))"

subsection \<open>Errors, the console and the files written\<close>

text \<open>\<open>error.message\<close>.\<close>

fun message :: "error \<Rightarrow> string" where
  "message (Error m) = m"
| "message (TypeError m) = m"

datatype stream = Log | Warn | Err | Child

record stats =
  atime :: int
  mtime :: int
  mode :: nat

text \<open>
  The source tree as the pass reads it: a file with its bytes, or a directory with its
  entries in the order of \<open>readdir\<close>.
\<close>

datatype fsnode =
    File string stats
  | Dir stats "(string \<times> fsnode) list"

fun statsOf :: "fsnode \<Rightarrow> stats" where
  "statsOf (File bytes st) = st"
| "statsOf (Dir st entries) = st"

text \<open>What the script has written, by path: files, directories and links.\<close>

datatype fnode =
    FFile string stats
  | FDir stats
  | FLink string

text \<open>
  The state the script works on: the files it has written, the lines on the terminal (of
  \<open>console.log\<close>, \<open>console.warn\<close>, \<open>console.error\<close> and of child processes whose output
  is inherited), whether the file watcher has been set up, and the status the process has
  exited with, if it has.
\<close>

record world =
  files :: "path \<rightharpoonup> fnode"
  console :: "(stream \<times> string) list"
  watching :: bool
  exited :: "int option"

text \<open>The operations on the file system that can fail.\<close>

datatype fsop =
    OpRm path
  | OpMkdir path
  | OpCopyFile path path
  | OpStat path
  | OpUtimes path
  | OpChmod path
  | OpReaddir path
  | OpSymlink path
  | OpReadFile path

text \<open>How a child process ends: it closes with an exit code (null when killed by a signal), or it cannot be spawned.\<close>

datatype childEnd = Closed "int option" | SpawnError error

record child =
  childOutput :: "string list"
  childEnd :: childEnd

text \<open>
  What a run of the script is given: the command line flags, the platform, the source
  tree, the lines of the ignore file, the operations that fail with their errors, the
  child processes, the pattern matcher, the stats of a newly made file or directory, and
  the behaviour of \<open>copyCustomizations\<close>, the overlay of the customizations, which is not
  modelled step by step.
\<close>

record env =
  serve :: bool
  watch :: bool
  noBuildDir :: bool
  verbose :: bool
  win32 :: bool
  gitTargetPath :: string
  workspace :: "(string \<times> fsnode) list"
  rootStats :: stats
  gitignoreContent :: "string list"
  fault :: "fsop \<Rightarrow> error option"
  mklink :: child
  npmInstall :: child
  quartzBuild :: child
  matches :: "string \<Rightarrow> path \<times> bool \<Rightarrow> bool"
  freshStats :: stats
  customizations :: "world \<Rightarrow> error option \<times> world"

text \<open>
  An awaited call either returns (\<open>None\<close>) or throws an error, and leaves a state either
  way.
\<close>

type_synonym action = "world \<Rightarrow> error option \<times> world"

text \<open>Calls in sequence: the first error ends the sequence.\<close>

fun seq :: "action list \<Rightarrow> action" where
  "seq [] w = (None, w)"
| "seq (m # ms) w = (case m w of (None, w') \<Rightarrow> seq ms w' | (Some e, w') \<Rightarrow> (Some e, w'))"

text \<open>\<open>try { m } catch (error) { h error }\<close>.\<close>

definition tryCatch :: "action \<Rightarrow> (error \<Rightarrow> action) \<Rightarrow> action" where
  "tryCatch m h w = (case m w of (None, w') \<Rightarrow> (None, w') | (Some e, w') \<Rightarrow> h e w')"

definition say :: "stream \<Rightarrow> string \<Rightarrow> action" where
  "say s line w = (None, w\<lparr>console := console w @ [(s, line)]\<rparr>)"

definition skip :: action where
  "skip w = (None, w)"

definition throw :: "error \<Rightarrow> action" where
  "throw e w = (Some e, w)"

text \<open>A path as it is printed; the working directory prints as a dot.\<close>

definition pathString :: "path \<Rightarrow> string" where
  "pathString p = (if p = [] then ''.'' else slugString p)"

subsection \<open>Operations on the files written\<close>

text \<open>Whether a path leads through a link: what lies below is written into the link's target.\<close>

definition throughLink :: "(path \<rightharpoonup> fnode) \<Rightarrow> path \<Rightarrow> bool" where
  "throughLink fs p =
     list_ex (\<lambda>q. case fs q of Some (FLink t) \<Rightarrow> True | _ \<Rightarrow> False) (butlast (prefixes p))"

text \<open>
  \<open>fs.mkdir(p, { recursive: true })\<close>: the missing directories along the path are made;
  a file in the way is an error.
\<close>

fun mkdirChain :: "stats \<Rightarrow> path list \<Rightarrow> (path \<rightharpoonup> fnode) \<Rightarrow> error option \<times> (path \<rightharpoonup> fnode)" where
  "mkdirChain fresh [] fs = (None, fs)"
| "mkdirChain fresh (q # qs) fs =
     (case fs q of
        None \<Rightarrow> mkdirChain fresh qs (fs(q \<mapsto> FDir fresh))
      | Some (FDir st) \<Rightarrow> mkdirChain fresh qs fs
      | Some (FLink t) \<Rightarrow> (None, fs)
      | Some (FFile bytes st) \<Rightarrow> (Some (Error ''EEXIST: file already exists''), fs))"

definition mkdir :: "env \<Rightarrow> path \<Rightarrow> action" where
  "mkdir env p w =
     (case fault env (OpMkdir p) of
        Some e \<Rightarrow> (Some e, w)
      | None \<Rightarrow>
          (case mkdirChain (freshStats env) (tl (prefixes p)) (files w) of
             (r, fs') \<Rightarrow> (r, w\<lparr>files := fs'\<rparr>)))"

text \<open>The node of the source tree at a path.\<close>

fun lookupNode :: "(string \<times> fsnode) list \<Rightarrow> path \<Rightarrow> fsnode option" where
  "lookupNode entries [] = None"
| "lookupNode entries [name] = map_of entries name"
| "lookupNode entries (name # rest) =
     (case map_of entries name of
        Some (Dir st sub) \<Rightarrow> lookupNode sub rest
      | _ \<Rightarrow> None)"

definition sourceNode :: "env \<Rightarrow> path \<Rightarrow> fsnode option" where
  "sourceNode env p =
     (if p = [] then Some (Dir (rootStats env) (workspace env)) else lookupNode (workspace env) p)"

text \<open>\<open>fs.stat(src)\<close> on the source tree.\<close>

definition fsStat :: "env \<Rightarrow> path \<Rightarrow> error + stats" where
  "fsStat env p =
     (case fault env (OpStat p) of
        Some e \<Rightarrow> Inl e
      | None \<Rightarrow>
          (case sourceNode env p of
             None \<Rightarrow> Inl (Error ''ENOENT: no such file or directory'')
           | Some n \<Rightarrow> Inr (statsOf n)))"

text \<open>\<open>fs.copyFile(src, dest)\<close>: the bytes of the source file are written at \<open>dest\<close>.\<close>

definition fsCopyFile :: "env \<Rightarrow> path \<Rightarrow> path \<Rightarrow> action" where
  "fsCopyFile env src dest w =
     (case fault env (OpCopyFile src dest) of
        Some e \<Rightarrow> (Some e, w)
      | None \<Rightarrow>
          (case sourceNode env src of
             None \<Rightarrow> (Some (Error ''ENOENT: no such file or directory''), w)
           | Some (Dir st sub) \<Rightarrow> (Some (Error ''EISDIR: illegal operation on a directory''), w)
           | Some (File bytes st) \<Rightarrow>
               (if throughLink (files w) dest then (None, w)
                else (case files w dest of
                        Some (FDir st') \<Rightarrow>
                          (Some (Error ''EISDIR: illegal operation on a directory''), w)
                      | Some (FLink t) \<Rightarrow> (None, w)
                      | _ \<Rightarrow>
                          (if dest = [] then
                             (Some (Error ''EISDIR: illegal operation on a directory''), w)
                           else if butlast dest = [] then
                             (None, w\<lparr>files := (files w)(dest \<mapsto> FFile bytes (freshStats env))\<rparr>)
                           else (case files w (butlast dest) of
                                   Some (FDir st') \<Rightarrow>
                                     (None, w\<lparr>files := (files w)(dest \<mapsto> FFile bytes (freshStats env))\<rparr>)
                                 | _ \<Rightarrow>
                                     (Some (Error ''ENOENT: no such file or directory''), w)))))))"

text \<open>\<open>fs.utimes\<close> and \<open>fs.chmod\<close> on what has been written.\<close>

definition setStats ::
  "(stats \<Rightarrow> stats) \<Rightarrow> (path \<rightharpoonup> fnode) \<Rightarrow> path \<Rightarrow> error option \<times> (path \<rightharpoonup> fnode)" where
  "setStats f fs p =
     (if throughLink fs p then (None, fs)
      else (case fs p of
              Some (FFile bytes st) \<Rightarrow> (None, fs(p \<mapsto> FFile bytes (f st)))
            | Some (FDir st) \<Rightarrow> (None, fs(p \<mapsto> FDir (f st)))
            | Some (FLink t) \<Rightarrow> (None, fs)
            | None \<Rightarrow> (Some (Error ''ENOENT: no such file or directory''), fs)))"

definition utimes :: "env \<Rightarrow> path \<Rightarrow> int \<Rightarrow> int \<Rightarrow> action" where
  "utimes env p a m w =
     (case fault env (OpUtimes p) of
        Some e \<Rightarrow> (Some e, w)
      | None \<Rightarrow>
          (case setStats (\<lambda>st. st\<lparr>atime := a, mtime := m\<rparr>) (files w) p of
             (r, fs') \<Rightarrow> (r, w\<lparr>files := fs'\<rparr>)))"

definition chmod :: "env \<Rightarrow> path \<Rightarrow> nat \<Rightarrow> action" where
  "chmod env p md w =
     (case fault env (OpChmod p) of
        Some e \<Rightarrow> (Some e, w)
      | None \<Rightarrow>
          (case setStats (\<lambda>st. st\<lparr>mode := md\<rparr>) (files w) p of
             (r, fs') \<Rightarrow> (r, w\<lparr>files := fs'\<rparr>)))"

text \<open>\<open>fs.rm(p, { recursive: true, force: true })\<close>.\<close>

definition fsRm :: "env \<Rightarrow> path \<Rightarrow> action" where
  "fsRm env p w =
     (case fault env (OpRm p) of
        Some e \<Rightarrow> (Some e, w)
      | None \<Rightarrow> (None, w\<lparr>files := (\<lambda>q. if prefix p q then None else files w q)\<rparr>))"

text \<open>\<open>fs.symlink(target, linkPath)\<close>.\<close>

definition fsSymlink :: "env \<Rightarrow> string \<Rightarrow> path \<Rightarrow> action" where
  "fsSymlink env target linkPath w =
     (case fault env (OpSymlink linkPath) of
        Some e \<Rightarrow> (Some e, w)
      | None \<Rightarrow>
          (case files w linkPath of
             None \<Rightarrow> (None, w\<lparr>files := (files w)(linkPath \<mapsto> FLink target)\<rparr>)
           | Some n \<Rightarrow> (Some (Error ''EEXIST: file already exists''), w)))"

subsection \<open>Printing exit codes\<close>

function showNat :: "nat \<Rightarrow> string" where
  "showNat n =
     (if n < 10 then [''0123456789'' ! n]
      else showNat (n div 10) @ [''0123456789'' ! (n mod 10)])"
  by pat_completeness auto
termination
  by (relation "measure (\<lambda>n. n)") auto

declare showNat.simps [simp del]

definition showInt :: "int \<Rightarrow> string" where
  "showInt i = (if i < 0 then ''-'' @ showNat (nat (- i)) else showNat (nat i))"

text \<open>An exit code in a template literal; a process killed by a signal has the code null.\<close>

definition showCode :: "int option \<Rightarrow> string" where
  "showCode code = (case code of None \<Rightarrow> ''null'' | Some c \<Rightarrow> showInt c)"

subsection \<open>Copying and mirroring\<close>

definition BUILD_DIR :: path where
  "BUILD_DIR = [''build'']"

text \<open>
  \<open>createGitignoreFilter\<close>: the five static patterns are added first, then the lines of
  the ignore file; a failure to read the file is caught.
\<close>

definition staticRules :: "rule list" where
  "staticRules =
     addPatterns [''build.js'']
       (addPatterns [''**/.git'']
          (addPatterns [''.git'']
             (addPatterns [''src/quartz'']
                (addPatterns [''build''] []))))"

definition createGitignoreFilter :: "env \<Rightarrow> world \<Rightarrow> (error + rule list) \<times> world" where
  "createGitignoreFilter env w =
     (let ig = staticRules
      in case fault env (OpReadFile [''.gitignore'']) of
           None \<Rightarrow> (Inr (addPatterns (gitignoreContent env) ig), w)
         | Some error \<Rightarrow>
             (case say Warn ''Could not read .gitignore, using default exclusions'' w of
                (None, w') \<Rightarrow> (Inr ig, w')
              | (Some e, w') \<Rightarrow> (Inl e, w')))"

text \<open>\<open>copyFile\<close>: the block under \<open>try\<close>, and the function with its handler.\<close>

definition copyFileTry :: "env \<Rightarrow> path \<Rightarrow> path \<Rightarrow> action" where
  "copyFileTry env src dest =
     seq [mkdir env (butlast dest),
          fsCopyFile env src dest,
          (\<lambda>w. case fsStat env src of
                  Inl e \<Rightarrow> (Some e, w)
                | Inr st \<Rightarrow>
                    seq [utimes env dest (atime st) (mtime st),
                         chmod env dest (mode st),
                         (if verbose env then say Log (''Copied '' @ pathString src)
                          else skip)] w)]"

definition copyFile :: "env \<Rightarrow> path \<Rightarrow> path \<Rightarrow> action" where
  "copyFile env src dest =
     tryCatch (copyFileTry env src dest)
       (\<lambda>error. say Warn (''Warning: Could not copy '' @ pathString src @ '': '' @ message error))"

text \<open>
  \<open>copyDirectory\<close> with the loop over the entries. The node is what \<open>readdir\<close> finds at
  \<open>src\<close>; the filter is absent (null) or the rules.
\<close>

fun copyDirectory :: "env \<Rightarrow> rule list option \<Rightarrow> fsnode \<Rightarrow> path \<Rightarrow> path \<Rightarrow> action"
and copyEntries :: "env \<Rightarrow> rule list option \<Rightarrow> (string \<times> fsnode) list \<Rightarrow> path \<Rightarrow> path \<Rightarrow> action" where
  "copyDirectory env ignoreFilter (Dir st entries) src dest w =
     tryCatch
       (seq [mkdir env dest,
             (\<lambda>w. case fsStat env src of
                     Inl e \<Rightarrow> (Some e, w)
                   | Inr dirStats \<Rightarrow>
                       seq [utimes env dest (atime dirStats) (mtime dirStats),
                            chmod env dest (mode dirStats)] w),
             (\<lambda>w. case fault env (OpReaddir src) of
                     Some e \<Rightarrow> (Some e, w)
                   | None \<Rightarrow> copyEntries env ignoreFilter entries src dest w)])
       (\<lambda>error. say Warn (''Warning: Could not copy directory '' @ pathString src @ '': '' @
                           message error))
       w"
| "copyDirectory env ignoreFilter (File bytes st) src dest w =
     tryCatch
       (seq [mkdir env dest,
             (\<lambda>w. case fsStat env src of
                     Inl e \<Rightarrow> (Some e, w)
                   | Inr dirStats \<Rightarrow>
                       seq [utimes env dest (atime dirStats) (mtime dirStats),
                            chmod env dest (mode dirStats)] w),
             throw (Error ''ENOTDIR: not a directory'')])
       (\<lambda>error. say Warn (''Warning: Could not copy directory '' @ pathString src @ '': '' @
                           message error))
       w"
| "copyEntries env ignoreFilter [] src dest w = (None, w)"
| "copyEntries env ignoreFilter ((name, node) # rest) src dest w =
     (let srcPath = src @ [name];
          relativePath = srcPath
      in if (case ignoreFilter of
               None \<Rightarrow> False
             | Some ig \<Rightarrow> ignores (matches env) ig relativePath)
         then copyEntries env ignoreFilter rest src dest w
         else (let destPath = dest @ [name]
               in case (case node of
                          Dir st sub \<Rightarrow> copyDirectory env ignoreFilter node srcPath destPath w
                        | File bytes st \<Rightarrow> copyFile env srcPath destPath w) of
                    (None, w') \<Rightarrow> copyEntries env ignoreFilter rest src dest w'
                  | (Some e, w') \<Rightarrow> (Some e, w')))"

text \<open>
  A child process awaited through a promise: its output goes to the terminal (standard
  streams inherited); a close with code 0 resolves, any other close rejects with the given
  message and the code, a spawn error rejects with the error.
\<close>

definition awaitChild :: "child \<Rightarrow> bool \<Rightarrow> string \<Rightarrow> action" where
  "awaitChild c inherit failure w =
     (let w' = (if inherit then w\<lparr>console := console w @ map (Pair Child) (childOutput c)\<rparr> else w)
      in case childEnd c of
           Closed code \<Rightarrow>
             (if code = Some 0 then (None, w')
              else (Some (Error (failure @ showCode code)), w'))
         | SpawnError e \<Rightarrow> (Some e, w'))"

text \<open>
  The link from \<open>build/.git\<close> to the repository's \<open>.git\<close>: a junction made by \<open>mklink\<close> on
  Windows, a symbolic link elsewhere: the block under \<open>try\<close>, and the step of
  \<open>mirrorWorkspace\<close> with its handler.
\<close>

definition createGitLinkTry :: "env \<Rightarrow> action" where
  "createGitLinkTry env =
     seq [(let gitSymlinkPath = BUILD_DIR @ [''.git'']
           in if win32 env
              then seq [awaitChild (mklink env) False ''mklink failed with code '',
                        (\<lambda>w. (None, w\<lparr>files := (files w)(gitSymlinkPath \<mapsto>
                                                     FLink (gitTargetPath env))\<rparr>))]
              else fsSymlink env ''../.git'' gitSymlinkPath),
          say Log ''Created git symlink for accurate file dates'']"

definition createGitLink :: "env \<Rightarrow> action" where
  "createGitLink env =
     tryCatch (createGitLinkTry env)
       (\<lambda>error. say Warn (''Warning: Could not create git symlink: '' @ message error))"

definition mirrorWorkspace :: "env \<Rightarrow> action" where
  "mirrorWorkspace env =
     seq [say Log ''Mirroring workspace to build directory...'',
          tryCatch (fsRm env BUILD_DIR) (\<lambda>error. skip),
          mkdir env BUILD_DIR,
          createGitLink env,
          (\<lambda>w. case createGitignoreFilter env w of
                  (Inl e, w') \<Rightarrow> (Some e, w')
                | (Inr ignoreFilter, w') \<Rightarrow>
                    copyDirectory env (Some ignoreFilter) (Dir (rootStats env) (workspace env))
                      [] BUILD_DIR w'),
          say Log ''Workspace mirrored to build/'']"

subsection \<open>The external build and the entry point\<close>

definition installDependencies :: "env \<Rightarrow> path \<Rightarrow> action" where
  "installDependencies env cwd =
     seq [say Log (''Installing dependencies in '' @ pathString cwd @ ''...''),
          awaitChild (npmInstall env) True ''npm install failed with code '']"

text \<open>
  \<open>runQuartzBuild\<close>. The command line of the renderer depends on the flags; its process
  is \<open>quartzBuild env\<close>.
\<close>

definition runQuartzBuild :: "env \<Rightarrow> action" where
  "runQuartzBuild env =
     (let cwd = (if noBuildDir env then [''quartz_repo''] else BUILD_DIR @ [''quartz_repo''])
      in seq [say Log (CHR 0x0A # ''Running Quartz build...''),
              installDependencies env cwd,
              awaitChild (quartzBuild env) True ''Quartz build failed with code ''])"

text \<open>
  \<open>setupWatcher\<close> as \<open>main\<close> sees it: the filter is made and the watcher is installed. What
  the watcher does with the events is the state machine below.
\<close>

definition setupWatcher :: "env \<Rightarrow> action" where
  "setupWatcher env =
     seq [say Log ''Setting up file watcher for workspace changes...'',
          (\<lambda>w. case createGitignoreFilter env w of
                  (Inl e, w') \<Rightarrow> (Some e, w')
                | (Inr ignoreFilter, w') \<Rightarrow> (None, w'\<lparr>watching := True\<rparr>))]"

definition processExit :: "int \<Rightarrow> action" where
  "processExit code w = (None, w\<lparr>exited := Some code\<rparr>)"

definition main :: "env \<Rightarrow> action" where
  "main env =
     tryCatch
       (seq [(if \<not> noBuildDir env then mirrorWorkspace env else skip),
             customizations env,
             (if (watch env \<or> serve env) \<and> \<not> noBuildDir env then setupWatcher env else skip),
             runQuartzBuild env,
             (if \<not> watch env \<and> \<not> serve env then say Log (CHR 0x0A # ''Build completed!'')
              else skip)])
       (\<lambda>error. seq [say Err (''Build failed: '' @ message error), processExit 1])"

subsection \<open>The watcher\<close>

text \<open>The events that the watcher's \<open>all\<close> handler receives, and what reaches the watcher.\<close>

datatype watchEvent = EvAdd | EvAddDir | EvChange | EvUnlink | EvUnlinkDir


text \<open>The awaited calls of a synchronization pass.\<close>

datatype syncAction =
    CopyFile path path
  | Unlink path
  | CopyCustomizations

text \<open>
  The watcher's state: \<open>isReady\<close>, the pending debounce timer with the event and path its
  callback has captured, the passes run so far, each the list of its calls, and the lines
  logged.
\<close>

record watcher =
  isReady :: bool
  debounceTimer :: "(watchEvent \<times> path) option"
  passes :: "syncAction list list"
  logged :: "string list"








subsection \<open>Example runs of the build script\<close>

definition emptyWorld :: world where
  "emptyWorld = \<lparr>files = Map.empty, console = [], watching = False, exited = None\<rparr>"

definition plainStats :: stats where
  "plainStats = \<lparr>atime = 1, mtime = 1, mode = 420\<rparr>"

definition quietChild :: child where
  "quietChild = \<lparr>childOutput = [], childEnd = Closed (Some 0)\<rparr>"

text \<open>
  A workspace with the repository directory, the build directory, the build script, one
  content file and a file \<open>secret.txt\<close>, on a POSIX platform, where nothing fails and the
  ignore file is empty.
\<close>

definition plainEnv :: env where
  "plainEnv =
     \<lparr>serve = False, watch = False, noBuildDir = False, verbose = False, win32 = False,
      gitTargetPath = ''/repo/.git'',
      workspace =
        [(''.git'', Dir plainStats [(''HEAD'', File ''ref: refs/heads/main'' plainStats)]),
         (''build'', Dir plainStats []),
         (''build.js'', File ''#!/usr/bin/env node'' plainStats),
         (''content'', Dir plainStats [(''a.md'', File ''# A'' plainStats)]),
         (''secret.txt'', File ''key'' plainStats)],
      rootStats = plainStats,
      gitignoreContent = [],
      fault = (\<lambda>op. None),
      mklink = quietChild, npmInstall = quietChild, quartzBuild = quietChild,
      matches = literalMatch,
      freshStats = \<lparr>atime = 2, mtime = 2, mode = 420\<rparr>,
      customizations = skip\<rparr>"

text \<open>The same run with an ignore file whose only line re-includes the build directory.\<close>

definition reincludeEnv :: env where
  "reincludeEnv = plainEnv\<lparr>gitignoreContent := [''!build'']\<rparr>"

text \<open>
  The same run where the ignore file cannot be read, the link cannot be made and
  \<open>secret.txt\<close> is locked.
\<close>

definition lockedEnv :: env where
  "lockedEnv =
     plainEnv\<lparr>fault :=
       (\<lambda>op. if op = OpReadFile [''.gitignore''] \<or> op = OpSymlink [''build'', ''.git''] \<or>
                  op = OpCopyFile [''secret.txt''] [''build'', ''secret.txt'']
               then Some (Error ''EBUSY: resource busy or locked'')
               else None)\<rparr>"

text \<open>The same run where the dependency install exits with code 2 after printing a line.\<close>

definition failingInstallEnv :: env where
  "failingInstallEnv =
     plainEnv\<lparr>npmInstall := \<lparr>childOutput = [''npm ERR! code ENOENT''], childEnd = Closed (Some 2)\<rparr>\<rparr>"


subsection \<open>Notions for the properties of the build script\<close>

text \<open>The phases of \<open>main\<close> that come before the external build.\<close>

definition beforeBuild :: "env \<Rightarrow> action" where
  "beforeBuild env =
     seq [(if \<not> noBuildDir env then mirrorWorkspace env else skip),
          customizations env,
          (if (watch env \<or> serve env) \<and> \<not> noBuildDir env then setupWatcher env else skip)]"

text \<open>
  A state grows from another only on the paths \<open>ok\<close>: every path that exists in the later
  state existed before or is one of them. An action is growing on \<open>ok\<close> when every state
  it leaves has grown so from the state it started in.
\<close>

definition grows :: "(path \<Rightarrow> bool) \<Rightarrow> world \<Rightarrow> world \<Rightarrow> bool" where
  "grows ok w w' \<longleftrightarrow> (\<forall>q. files w' q \<noteq> None \<longrightarrow> files w q \<noteq> None \<or> ok q)"

definition growing :: "(path \<Rightarrow> bool) \<Rightarrow> action \<Rightarrow> bool" where
  "growing ok m \<longleftrightarrow> (\<forall>w. grows ok w (snd (m w)))"

text \<open>
  The paths that a mirror pass with the rules \<open>ig\<close> may create: the build root, and below it
  the source paths that the rules do not ignore.
\<close>

definition mirrored :: "(string \<Rightarrow> path \<times> bool \<Rightarrow> bool) \<Rightarrow> rule list \<Rightarrow> path \<Rightarrow> bool" where
  "mirrored m ig q \<longleftrightarrow> (\<exists>r. q = BUILD_DIR @ r \<and> (r = [] \<or> \<not> ignores m ig r))"

text \<open>The rules that \<open>createGitignoreFilter\<close> compiles in a run.\<close>

definition compiledRules :: "env \<Rightarrow> rule list" where
  "compiledRules env =
     (case fault env (OpReadFile [''.gitignore'']) of
        None \<Rightarrow> addPatterns (gitignoreContent env) staticRules
      | Some e \<Rightarrow> staticRules)"

text \<open>
  What a lookup finds at a path among the files written: the node written at the path
  itself, or, when the path leads through a link below the working directory, whatever
  the target of the link holds there.
\<close>

fun isLink :: "fnode option \<Rightarrow> bool" where
  "isLink (Some (FLink t)) = True"
| "isLink n = False"

definition onDisk :: "(path \<rightharpoonup> fnode) \<Rightarrow> path \<Rightarrow> bool" where
  "onDisk fs q \<longleftrightarrow> fs q \<noteq> None \<or> list_ex (\<lambda>l. isLink (fs l)) (tl (butlast (prefixes q)))"

text \<open>
  A state keeps the links of another when each of its links was a link before or is the
  link \<open>build/.git\<close>. An action keeps the links when every state it leaves keeps the links
  of the state it started in.
\<close>

definition linksKept :: "world \<Rightarrow> world \<Rightarrow> bool" where
  "linksKept w w' \<longleftrightarrow>
     (\<forall>q. isLink (files w' q) \<longrightarrow> isLink (files w q) \<or> q = BUILD_DIR @ [''.git''])"

definition keepsLinks :: "action \<Rightarrow> bool" where
  "keepsLinks m \<longleftrightarrow> (\<forall>w. linksKept w (snd (m w)))"

text \<open>
  The verdict of the compiled rules on a path of the source tree when a directory is asked
  about as a directory (its path written with a trailing slash), as the grammar of ignore
  files has it.
\<close>

definition excludes :: "env \<Rightarrow> path \<Rightarrow> bool" where
  "excludes env p \<longleftrightarrow>
     testChain (matches env) (compiledRules env) (rev p)
       (case sourceNode env p of Some (Dir st sub) \<Rightarrow> True | _ \<Rightarrow> False)"

text \<open>
  The plain run on a workspace that also holds the directory \<open>secrets\<close> with one file,
  with an ignore file whose only line is the directory pattern \<open>secrets/\<close>.
\<close>

definition dirPatternEnv :: env where
  "dirPatternEnv =
     plainEnv\<lparr>workspace :=
                workspace plainEnv @
                  [(''secrets'', Dir plainStats [(''key.txt'', File ''k'' plainStats)])],
              gitignoreContent := [''secrets/'']\<rparr>"

text \<open>
  A run in which the earlier build root cannot be cleared, started where an earlier build
  has left a copy of \<open>secret.txt\<close>, which the ignore file now excludes.
\<close>

definition busyEnv :: env where
  "busyEnv =
     plainEnv\<lparr>gitignoreContent := [''secret.txt''],
              fault := (\<lambda>op. if op = OpRm BUILD_DIR
                              then Some (Error ''EBUSY: resource busy or locked'')
                              else None)\<rparr>"

definition staleWorld :: world where
  "staleWorld =
     emptyWorld\<lparr>files := [[''build''] \<mapsto> FDir plainStats,
                           [''build'', ''secret.txt''] \<mapsto> FFile ''old'' plainStats]\<rparr>"



text \<open>The plain run with an ignore file that excludes \<open>secret.txt\<close>.\<close>

definition secretEnv :: env where
  "secretEnv = plainEnv\<lparr>gitignoreContent := [''secret.txt'']\<rparr>"

section \<open>Properties of the frontmatter index emitter\<close>

lemma frontmatterIndexLoop_other:
  "k \<notin> set (map (slugKey \<circ> snd) content) \<Longrightarrow>
   map_of (frontmatterIndexLoop content idx) k = map_of idx k"
  by (induction content idx rule: frontmatterIndexLoop.induct)
     (auto simp: Let_def update_conv' assignProperty_def)

lemma frontmatterIndexLoop_member:
  "distinct (map (slugKey \<circ> snd) content) \<Longrightarrow> (tree, file) \<in> set content \<Longrightarrow>
   slugKey file \<noteq> [''__proto__''] \<Longrightarrow>
   map_of (frontmatterIndexLoop content idx) (slugKey file) =
     (if hasIndexData file then Some (indexEntry file) else map_of idx (slugKey file))"
proof (induction content idx rule: frontmatterIndexLoop.induct)
  case (1 idx)
  then show ?case by simp
next
  case (2 t f rest idx)
  show ?case
  proof (cases "(tree, file) = (t, f)")
    case True
    have "slugKey f \<notin> set (map (slugKey \<circ> snd) rest)"
      using "2.prems"(1) by simp
    then show ?thesis
      using True "2.prems"(3)
      by (simp add: frontmatterIndexLoop_other Let_def update_conv' hasIndexData_def
          assignProperty_def)
  next
    case False
    then have mem: "(tree, file) \<in> set rest"
      using "2.prems"(2) by auto
    have d: "distinct (map (slugKey \<circ> snd) rest)"
      using "2.prems"(1) by (simp add: comp_def)
    have ne: "slugKey file \<noteq> slugKey f"
      using "2.prems"(1) mem by force
    show ?thesis
      using "2.IH"[OF refl refl d mem "2.prems"(3)] ne
      by (simp add: Let_def update_conv' assignProperty_def)
  qed
qed

lemma slugKey_distinct:
  "\<forall>(tree, file) \<in> set content. slug file \<noteq> None \<Longrightarrow>
   distinct (map (slug \<circ> snd) content) \<Longrightarrow>
   distinct (map (slugKey \<circ> snd) content)"
proof (induction content)
  case Nil
  then show ?case by simp
next
  case (Cons x content)
  obtain s where s: "slug (snd x) = Some s"
    using Cons.prems(1) by (cases x) auto
  have "slugKey (snd x) \<notin> (slugKey \<circ> snd) ` set content"
  proof
    assume "slugKey (snd x) \<in> (slugKey \<circ> snd) ` set content"
    then obtain y where y: "y \<in> set content" "slugKey (snd y) = slugKey (snd x)" by auto
    obtain u where u: "slug (snd y) = Some u"
      using Cons.prems(1) y(1) by (cases y) auto
    have "slug (snd y) = slug (snd x)"
      using y(2) s u by (simp add: slugKey_def)
    then show False
      using Cons.prems(2) y(1) by (auto simp: image_iff)
  qed
  then show ?case
    using Cons by simp
qed

text \<open>
  C10, as the code has it. The emitter writes exactly one file,
  \<open>static/frontmatterIndex.json\<close>, holding the serialised index. In a collection whose
  files all carry a slug, no two of them the same (one content node per slug), for every
  file whose slug is not \<open>__proto__\<close>: the slug is a key of the index if and only if the
  file's frontmatter has at least one key or its table of contents is not empty; and the
  entry of an included file has the table of contents under the key \<open>toc\<close> and, under
  every other key, what the file's frontmatter has under that key.
\<close>

theorem frontmatter_index_emit:
  assumes "\<forall>(tree, file) \<in> set content. slug file \<noteq> None"
    and "distinct (map (slug \<circ> snd) content)"
  shows "\<exists>index.
           FrontmatterIndex_emit stringify content =
             [\<lparr>w_slug = [''static'', ''frontmatterIndex''], w_ext = ''.json'',
               w_content = stringify index\<rparr>]
         \<and> (\<forall>(tree, file) \<in> set content. \<forall>s. slug file = Some s \<and> s \<noteq> [''__proto__''] \<longrightarrow>
               (s \<in> fst ` set index \<longleftrightarrow>
                  frontmatter file \<notin> {None, Some []} \<or> toc file \<notin> {None, Some []})
             \<and> (s \<in> fst ` set index \<longrightarrow>
                  (\<exists>entry. map_of index s = Some entry
                     \<and> map_of entry ''toc'' =
                         Some (JArr (case toc file of None \<Rightarrow> [] | Some t \<Rightarrow> t))
                     \<and> (\<forall>k. k \<noteq> ''toc'' \<longrightarrow>
                           map_of entry k =
                             (case frontmatter file of None \<Rightarrow> None | Some fm \<Rightarrow> map_of fm k)))))"
proof -
  let ?index = "frontmatterIndexLoop content []"
  have d: "distinct (map (slugKey \<circ> snd) content)"
    using slugKey_distinct[OF assms] .
  have a: "FrontmatterIndex_emit stringify content =
           [\<lparr>w_slug = [''static'', ''frontmatterIndex''], w_ext = ''.json'',
             w_content = stringify ?index\<rparr>]"
    by (simp add: FrontmatterIndex_emit_def joinSegments_def)
  have b: "map_of ?index s = (if hasIndexData fl then Some (indexEntry fl) else None)"
    if "(tree, fl) \<in> set content" "slug fl = Some s" "s \<noteq> [''__proto__'']" for tree fl s
    using frontmatterIndexLoop_member[OF d that(1), of "[]"] that(2,3)
    by (simp add: slugKey_def)
  have h: "hasIndexData fl \<longleftrightarrow> frontmatter fl \<notin> {None, Some []} \<or> toc fl \<notin> {None, Some []}" for fl
    by (auto simp: hasIndexData_def frontmatterOrEmpty_def tocOrEmpty_def split: option.splits)
  have e: "map_of (indexEntry fl) ''toc'' = Some (JArr (case toc fl of None \<Rightarrow> [] | Some t \<Rightarrow> t))
           \<and> (\<forall>k. k \<noteq> ''toc'' \<longrightarrow>
                 map_of (indexEntry fl) k =
                   (case frontmatter fl of None \<Rightarrow> None | Some fm \<Rightarrow> map_of fm k))" for fl
    by (auto simp: indexEntry_def update_conv' frontmatterOrEmpty_def tocOrEmpty_def
        split: option.splits)
  have c: "(s \<in> fst ` set ?index \<longleftrightarrow>
               frontmatter fl \<notin> {None, Some []} \<or> toc fl \<notin> {None, Some []})
           \<and> (s \<in> fst ` set ?index \<longrightarrow>
                  (\<exists>entry. map_of ?index s = Some entry
                     \<and> map_of entry ''toc'' =
                         Some (JArr (case toc fl of None \<Rightarrow> [] | Some t \<Rightarrow> t))
                     \<and> (\<forall>k. k \<noteq> ''toc'' \<longrightarrow>
                           map_of entry k =
                             (case frontmatter fl of None \<Rightarrow> None | Some fm \<Rightarrow> map_of fm k))))"
    if "(tree, fl) \<in> set content" "slug fl = Some s" "s \<noteq> [''__proto__'']" for tree fl s
  proof -
    have k: "s \<in> fst ` set ?index \<longleftrightarrow> hasIndexData fl"
      using b[OF that] by (auto simp: dom_map_of_conv_image_fst[symmetric] dom_def)
    show ?thesis
      using k b[OF that] h[of fl] e[of fl] by auto
  qed
  show ?thesis
    using a c by blast
qed

text \<open>
  The theorem at a collection of three files: \<open>guide\<close> with a frontmatter key, \<open>notes\<close>
  with neither frontmatter nor headings, and \<open>outline\<close> with a heading only.
\<close>

theorem frontmatter_index_emit_witness:
  "slug guideFile \<noteq> None \<and> slug notesFile \<noteq> None \<and> slug outlineFile \<noteq> None
   \<and> distinct (map (slug \<circ> snd) [((), guideFile), ((), notesFile), ((), outlineFile)])
   \<and> FrontmatterIndex_emit (\<lambda>idx. idx) [((), guideFile), ((), notesFile), ((), outlineFile)] =
       [\<lparr>w_slug = [''static'', ''frontmatterIndex''], w_ext = ''.json'',
         w_content = [([''guide''], [(''sortorder'', JNum 1), (''toc'', JArr [])]),
                      ([''outline''], [(''toc'', JArr [introHeading])])]\<rparr>]"
proof -
  have h1: "\<forall>(tree, file) \<in> set [((), guideFile), ((), notesFile), ((), outlineFile)]. slug file \<noteq> None"
    by (simp add: guideFile_def notesFile_def outlineFile_def)
  have h2: "distinct (map (slug \<circ> snd) [((), guideFile), ((), notesFile), ((), outlineFile)])"
    by (simp add: guideFile_def notesFile_def outlineFile_def)
  have e: "FrontmatterIndex_emit (\<lambda>idx. idx) [((), guideFile), ((), notesFile), ((), outlineFile)] =
       [\<lparr>w_slug = [''static'', ''frontmatterIndex''], w_ext = ''.json'',
         w_content = [([''guide''], [(''sortorder'', JNum 1), (''toc'', JArr [])]),
                      ([''outline''], [(''toc'', JArr [introHeading])])]\<rparr>]"
    by (simp add: FrontmatterIndex_emit_def joinSegments_def guideFile_def notesFile_def
        outlineFile_def frontmatterOrEmpty_def tocOrEmpty_def slugKey_def indexEntry_def
        assignProperty_def)
  show ?thesis
    using frontmatter_index_emit[OF h1 h2, of "\<lambda>idx. idx"] h1 h2 e by simp
qed

text \<open>
  C10 as stated fails. The file \<open>__proto__\<close> has a frontmatter key, and its slug is no key
  of the index that is written. The file \<open>page\<close> has the frontmatter field \<open>toc\<close>, and its
  entry holds the table of contents in its place, not the field.
\<close>

theorem frontmatter_index_counterexample:
  "slug protoFile = Some [''__proto__'']
   \<and> frontmatter protoFile = Some [(''title'', JStr ''Proto'')]
   \<and> FrontmatterIndex_emit (\<lambda>idx. idx) [((), protoFile)] =
       [\<lparr>w_slug = [''static'', ''frontmatterIndex''], w_ext = ''.json'', w_content = []\<rparr>]
   \<and> frontmatter tocFieldFile = Some [(''toc'', JBool False)]
   \<and> FrontmatterIndex_emit (\<lambda>idx. idx) [((), tocFieldFile)] =
       [\<lparr>w_slug = [''static'', ''frontmatterIndex''], w_ext = ''.json'',
         w_content = [([''page''], [(''toc'', JArr [introHeading])])]\<rparr>]"
  by (simp add: FrontmatterIndex_emit_def joinSegments_def protoFile_def tocFieldFile_def
      frontmatterOrEmpty_def tocOrEmpty_def slugKey_def indexEntry_def assignProperty_def)

section \<open>Properties of the folder page emitter\<close>

subsection \<open>Sets, folder chains and affected folders\<close>

lemma set_foldl_setAdd: "set (foldl setAdd acc xs) = set acc \<union> set xs"
  by (induction xs arbitrary: acc) (auto simp: setAdd_def)

lemma distinct_foldl_setAdd: "distinct acc \<Longrightarrow> distinct (foldl setAdd acc xs)"
  by (induction xs arbitrary: acc) (auto simp: setAdd_def)

lemma distinct_newSet: "distinct (newSet xs)"
  by (simp add: newSet_def distinct_foldl_setAdd)

lemma strict_prefix_butlast:
  "f \<noteq> [] \<Longrightarrow> strict_prefix p f \<longleftrightarrow> p = butlast f \<or> strict_prefix p (butlast f)"
proof -
  assume "f \<noteq> []"
  then obtain ys y where f: "f = ys @ [y]"
    by (metis append_butlast_last_id)
  show ?thesis
    unfolding f by (auto simp: strict_prefix_def prefix_snoc)
qed

lemma set_getFoldersLoop:
  "set (getFoldersLoop f acc) = set acc \<union> {p. strict_prefix p f}"
proof (induction f acc rule: getFoldersLoop.induct)
  case (1 folderName parentFolderNames)
  show ?case
  proof (cases "folderName = []")
    case True
    then show ?thesis by (simp add: getFoldersLoop.simps[of "[]"])
  next
    case False
    have "set (getFoldersLoop folderName parentFolderNames) =
          set (getFoldersLoop (dirname folderName) (parentFolderNames @ [dirname folderName]))"
      using False by (simp add: Let_def getFoldersLoop.simps[of folderName])
    also have "\<dots> = set (parentFolderNames @ [dirname folderName]) \<union> {p. strict_prefix p (dirname folderName)}"
      using "1.IH"[OF False refl] .
    also have "\<dots> = set parentFolderNames \<union> {p. strict_prefix p folderName}"
      using strict_prefix_butlast[OF False] by (auto simp: dirname_def)
    finally show ?thesis .
  qed
qed

lemma set_getFolders_keep:
  "set (filter keepFolder (getFolders s)) = {p. strict_prefix p s \<and> keepFolder p}"
proof (cases "s = []")
  case True
  then show ?thesis
    by (auto simp: getFolders_def dirname_def keepFolder_def getFoldersLoop.simps[of "[]"])
next
  case False
  have "set (getFolders s) = {p. strict_prefix p s}"
    using strict_prefix_butlast[OF False]
    by (auto simp: getFolders_def Let_def set_getFoldersLoop dirname_def)
  then show ?thesis by auto
qed

lemma ancestorClosure_Cons:
  "ancestorClosure (ev # rest) =
     (case ce_file ev of
        None \<Rightarrow> {}
      | Some fl \<Rightarrow> {p. strict_prefix p (slugOrEmpty fl) \<and> keepFolder p})
     \<union> ancestorClosure rest"
  by (auto simp: ancestorClosure_def split: option.splits)

lemma set_affectedLoop:
  "set (affectedLoop evs acc) = set acc \<union> ancestorClosure evs"
proof (induction evs acc rule: affectedLoop.induct)
  case (1 acc)
  then show ?case by (simp add: ancestorClosure_def)
next
  case (2 ev rest acc)
  show ?case
  proof (cases "ce_file ev")
    case None
    have "set (affectedLoop (ev # rest) acc) = set (affectedLoop rest acc)"
      using None by simp
    also have "\<dots> = set acc \<union> ancestorClosure rest"
      using "2.IH"(1)[OF None] .
    also have "\<dots> = set acc \<union> ancestorClosure (ev # rest)"
      unfolding ancestorClosure_Cons[of ev rest] using None by simp
    finally show ?thesis .
  next
    case (Some fl)
    let ?fs = "filter keepFolder (getFolders (slugOrEmpty fl))"
    have "set (affectedLoop (ev # rest) acc) = set (affectedLoop rest (foldl setAdd acc ?fs))"
      using Some by (simp add: Let_def)
    also have "\<dots> = set (foldl setAdd acc ?fs) \<union> ancestorClosure rest"
      using "2.IH"(2)[OF Some refl] .
    also have "\<dots> = set acc \<union> ({p. strict_prefix p (slugOrEmpty fl) \<and> keepFolder p} \<union> ancestorClosure rest)"
      unfolding set_foldl_setAdd set_getFolders_keep by (simp add: Un_assoc)
    also have "\<dots> = set acc \<union> ancestorClosure (ev # rest)"
      unfolding ancestorClosure_Cons[of ev rest] using Some by simp
    finally show ?thesis .
  qed
qed

lemma distinct_affectedLoop:
  "distinct acc \<Longrightarrow> distinct (affectedLoop evs acc)"
  by (induction evs acc rule: affectedLoop.induct)
     (auto simp: Let_def distinct_foldl_setAdd split: option.splits)


subsection \<open>The folder descriptions in closed form\<close>

lemma update_tabulated:
  "distinct ks \<Longrightarrow> AList.update k v (map (\<lambda>x. (x, g x)) ks) = (if k \<in> set ks then map (\<lambda>x. (x, (g(k := v)) x)) ks else map (\<lambda>x. (x, g x)) ks @ [(k, v)])"
  by (induction ks) auto

lemma updateFolderInfo_closed:
  assumes "distinct folders" and "\<forall>(t, f) \<in> set content. slug f \<noteq> None"
  shows "updateFolderInfo folders content (map (\<lambda>k. (k, g k)) folders) =
          Inr (map (\<lambda>k. (k, case explicitContent content k of Some tf \<Rightarrow> tf | None \<Rightarrow> g k)) folders)"
  using assms(2)
proof (induction content arbitrary: g)
  case Nil
  then show ?case by simp
next
  case (Cons tf rest)
  obtain t f where tf: "tf = (t, f)" by (cases tf)
  from Cons.prems tf obtain s where s: "slug f = Some s" by auto
  have rest: "\<forall>(t, f) \<in> set rest. slug f \<noteq> None" using Cons.prems by simp
  let ?g' = "if simplifySlug s \<in> set folders then g(simplifySlug s := (t, f)) else g"
  have step: "updateFolderInfo folders (tf # rest) (map (\<lambda>k. (k, g k)) folders) =
          updateFolderInfo folders rest (map (\<lambda>k. (k, ?g' k)) folders)"
    using s tf assms(1) by (simp add: Let_def update_tabulated)
  have pointwise: "(case explicitContent rest k of Some tf \<Rightarrow> tf | None \<Rightarrow> ?g' k) =
                   (case explicitContent (tf # rest) k of Some tf \<Rightarrow> tf | None \<Rightarrow> g k)"
    if "k \<in> set folders" for k
    using that s unfolding tf by (cases "explicitContent rest k") auto
  have "updateFolderInfo folders rest (map (\<lambda>k. (k, ?g' k)) folders) =
        Inr (map (\<lambda>k. (k, case explicitContent rest k of Some tf \<Rightarrow> tf | None \<Rightarrow> ?g' k)) folders)"
    using Cons.IH[OF rest, of ?g'] .
  also have "\<dots> = Inr (map (\<lambda>k. (k, case explicitContent (tf # rest) k of Some tf \<Rightarrow> tf | None \<Rightarrow> g k)) folders)"
    using pointwise by (simp cong: map_cong)
  finally show ?case using step by simp
qed

lemma computeFolderInfo_closed:
  assumes "distinct folders" and "\<forall>(t, f) \<in> set content. slug f \<noteq> None"
  shows "computeFolderInfo emptyRoot folderLabel folders content =
          Inr (map (\<lambda>folder. (folder, folderEntry emptyRoot folderLabel content folder)) folders)"
  using updateFolderInfo_closed[OF assms, of "defaultFolderContent emptyRoot folderLabel"]
  by (simp add: computeFolderInfo_def folderEntry_def)

lemma processFolderInfo_closed:
  "processFolderInfo renderPage (map (\<lambda>folder. (folder, folderEntry emptyRoot folderLabel content folder)) folders) (map snd content)
    = map (folderPage renderPage emptyRoot folderLabel content) folders"
  by (simp add: processFolderInfo_def folderPage_def Let_def case_prod_beta)

lemma emit_closed:
  assumes "\<forall>(t, f) \<in> set content. slug f \<noteq> None"
  shows "emit renderPage emptyRoot folderLabel content =
         Inr (map (folderPage renderPage emptyRoot folderLabel content) (allFolders (map snd content)))"
  using computeFolderInfo_closed[OF _ assms, of "allFolders (map snd content)" emptyRoot folderLabel]
  by (simp add: emit_def Let_def processFolderInfo_closed allFolders_def distinct_newSet)

lemma partialEmit_closed:
  assumes "\<forall>(t, f) \<in> set content. slug f \<noteq> None"
  shows "partialEmit renderPage emptyRoot folderLabel content evs =
         Inr (map (folderPage renderPage emptyRoot folderLabel content) (affectedLoop evs []))"
  using computeFolderInfo_closed[OF _ assms, of "affectedLoop evs []" emptyRoot folderLabel]
  by (simp add: partialEmit_def Let_def processFolderInfo_closed distinct_affectedLoop)

lemma pageFor_map:
  "pageFor (map (folderPage R er lbl content) folders) folder =
     (if folder \<in> set folders then Some (folderPage R er lbl content folder) else None)"
  by (induction folders) (auto simp: pageFor_def folderPage_def joinSegments_def)

lemma explicitContent_None:
  "explicitContent content k = None \<longleftrightarrow>
     (\<forall>(t, f) \<in> set content. map_option simplifySlug (slug f) \<noteq> Some k)"
  by (induction content k rule: explicitContent.induct) (auto split: option.splits)


subsection \<open>Incremental against full emission\<close>

text \<open>
  C3, as the code has it. For a content collection in which every file has a slug, and any
  batch of change events, \<open>partialEmit\<close> emits one page for each folder of the ancestor
  closure of the batch (root and tag folder excluded) and no other page; for each of these
  folders for which the full \<open>emit\<close> on the same collection emits a page, the two pages
  are equal; and when the closure is empty nothing is emitted. The page of every folder of
  the closure, also of one that is no folder of the collection (an ancestor of a deleted
  file, for which the full pass has no page), is rendered from the content file whose slug
  simplifies to the folder, the last such file of the collection, if there is one, and
  otherwise from the default description with the title \<open>Folder: folder\<close>.
\<close>

theorem partial_emit_refines_emit:
  assumes "\<forall>(t, f) \<in> set content. slug f \<noteq> None"
  shows "\<exists>pages allPages.
           partialEmit renderPage emptyRoot folderLabel content changeEvents = Inr pages
         \<and> emit renderPage emptyRoot folderLabel content = Inr allPages
         \<and> distinct (map w_slug pages)
         \<and> set (map w_slug pages) =
             (\<lambda>folder. joinSegments folder [''index'']) ` ancestorClosure changeEvents
         \<and> (\<forall>folder \<in> ancestorClosure changeEvents.
               (pageFor allPages folder \<noteq> None \<longrightarrow> pageFor pages folder = pageFor allPages folder)
             \<and> (\<exists>tree file.
                   pageFor pages folder =
                     Some \<lparr>w_slug = folder @ [''index''], w_ext = ''.html'',
                           w_content = renderPage (folder @ [''index'']) tree file (map snd content)\<rparr>
                 \<and> (case explicitContent content folder of
                      Some tf \<Rightarrow> (tree, file) = tf
                    | None \<Rightarrow>
                        tree = emptyRoot \<and>
                        file = \<lparr>slug = Some (folder @ [''index'']),
                                frontmatter =
                                  Some [(''title'', JStr (folderLabel @ '': '' @ slugString folder)),
                                        (''tags'', JArr [])],
                                dates = None, toc = None\<rparr>)))
         \<and> (ancestorClosure changeEvents = {} \<longrightarrow> pages = [])"
proof -
  let ?P = "folderPage renderPage emptyRoot folderLabel content"
  let ?A = "affectedLoop changeEvents []"
  let ?F = "allFolders (map snd content)"
  have A: "set ?A = ancestorClosure changeEvents"
    by (simp add: set_affectedLoop)
  have dA: "distinct ?A"
    by (simp add: distinct_affectedLoop)
  have slugs: "map w_slug (map ?P ?A) = map (\<lambda>folder. joinSegments folder [''index'']) ?A"
    by (simp add: folderPage_def)
  have inj: "inj (\<lambda>folder. joinSegments folder [''index''])"
    by (simp add: inj_def joinSegments_def)
  have 1: "distinct (map w_slug (map ?P ?A))"
    unfolding slugs using dA inj by (simp add: distinct_map inj_on_subset[OF _ subset_UNIV])
  have 2: "set (map w_slug (map ?P ?A)) =
             (\<lambda>folder. joinSegments folder [''index'']) ` ancestorClosure changeEvents"
    unfolding slugs using A by simp
  have 3: "pageFor (map ?P ?A) folder = pageFor (map ?P ?F) folder"
    if "folder \<in> ancestorClosure changeEvents" "pageFor (map ?P ?F) folder \<noteq> None" for folder
    using that A by (simp add: pageFor_map split: if_splits)
  have 4: "map ?P ?A = []" if "ancestorClosure changeEvents = {}"
    using that A by simp
  have 5: "\<exists>tree file.
             pageFor (map ?P ?A) folder =
               Some \<lparr>w_slug = folder @ [''index''], w_ext = ''.html'',
                     w_content = renderPage (folder @ [''index'']) tree file (map snd content)\<rparr>
           \<and> (case explicitContent content folder of
                Some tf \<Rightarrow> (tree, file) = tf
              | None \<Rightarrow>
                  tree = emptyRoot \<and>
                  file = \<lparr>slug = Some (folder @ [''index'']),
                          frontmatter =
                            Some [(''title'', JStr (folderLabel @ '': '' @ slugString folder)),
                                  (''tags'', JArr [])],
                          dates = None, toc = None\<rparr>)"
    if "folder \<in> ancestorClosure changeEvents" for folder
  proof -
    let ?e = "folderEntry emptyRoot folderLabel content folder"
    have p: "pageFor (map ?P ?A) folder =
               Some \<lparr>w_slug = folder @ [''index''], w_ext = ''.html'',
                     w_content = renderPage (folder @ [''index'']) (fst ?e) (snd ?e) (map snd content)\<rparr>"
      using that A by (simp add: pageFor_map folderPage_def joinSegments_def)
    have c: "case explicitContent content folder of
                Some tf \<Rightarrow> (fst ?e, snd ?e) = tf
              | None \<Rightarrow>
                  fst ?e = emptyRoot \<and>
                  snd ?e = \<lparr>slug = Some (folder @ [''index'']),
                          frontmatter =
                            Some [(''title'', JStr (folderLabel @ '': '' @ slugString folder)),
                                  (''tags'', JArr [])],
                          dates = None, toc = None\<rparr>"
      by (simp add: folderEntry_def defaultFolderContent_def joinSegments_def
          split: option.splits)
    show ?thesis
      using p c by blast
  qed
  show ?thesis
    using partialEmit_closed[OF assms, of renderPage emptyRoot folderLabel changeEvents]
      emit_closed[OF assms, of renderPage emptyRoot folderLabel] 1 2 3 4 5
    by blast
qed


text \<open>
  The theorem at a change of \<open>a/x\<close> in the collection of \<open>a/x\<close> and \<open>a/y\<close>: both passes
  emit the page of folder \<open>a\<close>; and at the deletion of \<open>docs/a\<close> from a collection that
  holds only the file \<open>docs\<close> beside the folder: \<open>partialEmit\<close> renders that file as the
  page of the folder, and the full pass has no folder.
\<close>

theorem partial_emit_refines_emit_witness:
  "slug exampleX \<noteq> None \<and> slug exampleY \<noteq> None
   \<and> partialEmit titleRenderer () ''Folder'' [((), exampleX), ((), exampleY)]
        [\<lparr>ce_type = Change, ce_path = ''a/x.md'', ce_file = Some exampleX\<rparr>] =
       Inr [\<lparr>w_slug = [''a'', ''index''], w_ext = ''.html'',
             w_content = Some (JStr ''Folder: a'')\<rparr>]
   \<and> emit titleRenderer () ''Folder'' [((), exampleX), ((), exampleY)] =
       Inr [\<lparr>w_slug = [''a'', ''index''], w_ext = ''.html'',
             w_content = Some (JStr ''Folder: a'')\<rparr>]
   \<and> slug docsFile \<noteq> None
   \<and> explicitContent [((), docsFile)] [''docs''] = Some ((), docsFile)
   \<and> partialEmit titleRenderer () ''Folder'' [((), docsFile)] [deleteEvent] =
       Inr [\<lparr>w_slug = [''docs'', ''index''], w_ext = ''.html'',
             w_content = Some (JStr ''Docs page'')\<rparr>]
   \<and> emit titleRenderer () ''Folder'' [((), docsFile)] = Inr []"
proof -
  have h: "\<forall>(t, f) \<in> set [((), exampleX), ((), exampleY)]. slug f \<noteq> None"
    by (simp add: exampleX_def exampleY_def)
  have h': "\<forall>(t, f) \<in> set [((), docsFile)]. slug f \<noteq> None"
    by (simp add: docsFile_def)
  have e: "emit titleRenderer () ''Folder'' [((), exampleX), ((), exampleY)] =
       Inr [\<lparr>w_slug = [''a'', ''index''], w_ext = ''.html'',
             w_content = Some (JStr ''Folder: a'')\<rparr>]"
    by (simp add: emit_def exampleX_def exampleY_def allFolders_def newSet_def
        getFolders_def dirname_def getFoldersLoop.simps[of "[''a'']"] getFoldersLoop.simps[of "[]"]
        keepFolder_def setAdd_def computeFolderInfo_def defaultFolderContent_def simplifySlug_def
        processFolderInfo_def joinSegments_def titleRenderer_def)
  have p: "partialEmit titleRenderer () ''Folder'' [((), exampleX), ((), exampleY)]
        [\<lparr>ce_type = Change, ce_path = ''a/x.md'', ce_file = Some exampleX\<rparr>] =
       Inr [\<lparr>w_slug = [''a'', ''index''], w_ext = ''.html'',
             w_content = Some (JStr ''Folder: a'')\<rparr>]"
    by (simp add: partialEmit_def exampleX_def exampleY_def slugOrEmpty_def
        getFolders_def dirname_def getFoldersLoop.simps[of "[''a'']"] getFoldersLoop.simps[of "[]"]
        keepFolder_def setAdd_def computeFolderInfo_def defaultFolderContent_def simplifySlug_def
        processFolderInfo_def joinSegments_def titleRenderer_def)
  have x: "explicitContent [((), docsFile)] [''docs''] = Some ((), docsFile)"
    by (simp add: docsFile_def simplifySlug_def)
  have e': "emit titleRenderer () ''Folder'' [((), docsFile)] = Inr []"
    by (simp add: emit_def docsFile_def allFolders_def newSet_def
        getFolders_def dirname_def getFoldersLoop.simps[of "[]"]
        keepFolder_def setAdd_def computeFolderInfo_def processFolderInfo_def)
  have p': "partialEmit titleRenderer () ''Folder'' [((), docsFile)] [deleteEvent] =
       Inr [\<lparr>w_slug = [''docs'', ''index''], w_ext = ''.html'',
             w_content = Some (JStr ''Docs page'')\<rparr>]"
    by (simp add: partialEmit_def deleteEvent_def deletedFile_def docsFile_def slugOrEmpty_def
        getFolders_def dirname_def getFoldersLoop.simps[of "[''docs'']"]
        getFoldersLoop.simps[of "[]"] keepFolder_def setAdd_def computeFolderInfo_def
        defaultFolderContent_def simplifySlug_def processFolderInfo_def joinSegments_def
        titleRenderer_def Let_def)
  show ?thesis
    using partial_emit_refines_emit[OF h, of titleRenderer "()" "''Folder''"
        "[\<lparr>ce_type = Change, ce_path = ''a/x.md'', ce_file = Some exampleX\<rparr>]"]
      partial_emit_refines_emit[OF h', of titleRenderer "()" "''Folder''" "[deleteEvent]"]
      e p x e' p'
    by (simp add: exampleX_def exampleY_def docsFile_def)
qed


text \<open>
  C3 as stated fails: with an empty content collection and the change event of the deleted
  file \<open>docs/a\<close>, the ancestor closure is the folder \<open>docs\<close>; \<open>partialEmit\<close> emits a page
  for it, and the full \<open>emit\<close> on the same collection produces no page for that folder.
\<close>

theorem partial_emit_counterexample:
  "partialEmit titleRenderer () ''Folder'' [] [deleteEvent] =
     Inr [\<lparr>w_slug = [''docs'', ''index''], w_ext = ''.html'',
           w_content = Some (JStr ''Folder: docs'')\<rparr>]
   \<and> emit titleRenderer () ''Folder'' [] = Inr []"
  by (simp add: partialEmit_def emit_def deleteEvent_def deletedFile_def slugOrEmpty_def
      getFolders_def dirname_def getFoldersLoop.simps[of "[''docs'']"] getFoldersLoop.simps[of "[]"]
      keepFolder_def setAdd_def computeFolderInfo_def defaultFolderContent_def
      processFolderInfo_def joinSegments_def titleRenderer_def allFolders_def newSet_def)


subsection \<open>Synthesized folder nodes\<close>

lemma maxDates_fields:
  "ds \<noteq> [] \<Longrightarrow> \<exists>m. maxDates ds = Some m \<and> created m = Max (created ` set ds)
      \<and> modified m = Max (modified ` set ds) \<and> published m = Max (published ` set ds)"
proof (induction ds)
  case Nil
  then show ?case by simp
next
  case (Cons d ds)
  show ?case
  proof (cases "ds = []")
    case True
    then show ?thesis by simp
  next
    case False
    from Cons.IH[OF False] obtain m where m: "maxDates ds = Some m"
      "created m = Max (created ` set ds)" "modified m = Max (modified ` set ds)"
      "published m = Max (published ` set ds)" by blast
    show ?thesis using m False by (simp add: Max_insert)
  qed
qed

lemma mostRecentLoop_maxDates:
  "mostRecentLoop cs acc = maxDates (rev (datesOfNodes cs) @ (case acc of None \<Rightarrow> [] | Some a \<Rightarrow> [a]))"
proof (induction cs arbitrary: acc)
  case Nil
  then show ?case by (simp add: datesOfNodes_def split: option.splits)
next
  case (Cons c cs)
  have snoc: "maxDates (xs @ [x, a]) = maxDates (xs @ [\<lparr>created = max (created x) (created a),
                        modified = max (modified x) (modified a),
                        published = max (published x) (published a)\<rparr>])" for xs x a
    by (induction xs) (auto split: option.splits)
  show ?case
    by (simp add: Cons.IH datesOfNodes_def snoc max_def split: option.splits)
qed

lemma getMostRecentDates_max:
  "getMostRecentDates node =
     (case maxDates (rev (datedChildren node)) of
        None \<Rightarrow> Inl (TypeError ''Cannot destructure property of undefined'')
      | Some d \<Rightarrow> Inr d)"
  by (simp add: getMostRecentDates_def mostRecentLoop_maxDates datedChildren_def)

lemma getMostRecentDates_fields:
  assumes "datedChildren node \<noteq> []"
  shows "\<exists>d. getMostRecentDates node = Inr d \<and>
      created d = Max (created ` set (datedChildren node)) \<and>
      modified d = Max (modified ` set (datedChildren node)) \<and>
      published d = Max (published ` set (datedChildren node))"
proof -
  have "rev (datedChildren node) \<noteq> []" using assms by simp
  from maxDates_fields[OF this] show ?thesis
    by (auto simp: getMostRecentDates_max)
qed

lemma getMostRecentDates_no_dated_child:
  "datedChildren node = [] \<Longrightarrow>
   getMostRecentDates node = Inl (TypeError ''Cannot destructure property of undefined'')"
  by (simp add: getMostRecentDates_max)


text \<open>
  C7, as the code has it. A folder of the folder set to which no content file's slug
  simplifies (it has no index file, and no file beside it has the folder's path as slug)
  gets the default description: slug \<open>folder/index\<close>, the title \<open>Folder: folder\<close> built from
  the translated label and the folder's path, the tags empty, and no dates. A subfolder
  without content that is listed in its parent's page, and has at least one direct child
  that carries content with dates, is represented by a synthetic file with the folder's
  display name as title, whose dates are the element-wise most recent dates of those direct
  children; children without content, child folders among them, contribute nothing.
\<close>

theorem synthesized_folder_nodes:
  "(distinct folders \<and> folder \<in> set folders \<and> (\<forall>(t, f) \<in> set content. slug f \<noteq> None) \<and>
    (\<forall>(t, f) \<in> set content. map_option simplifySlug (slug f) \<noteq> Some folder) \<longrightarrow>
      (\<exists>info. computeFolderInfo emptyRoot folderLabel folders content = Inr info \<and>
         map_of info folder =
           Some (emptyRoot,
                 \<lparr>slug = Some (folder @ [''index'']),
                  frontmatter = Some [(''title'', JStr (folderLabel @ '': '' @ slugString folder)),
                                      (''tags'', JArr [])],
                  dates = None, toc = None\<rparr>)))
   \<and> (nodeData node = None \<and> isFolder node \<and> datedChildren node \<noteq> [] \<longrightarrow>
        (\<exists>d. pageOfChild True node =
                Inr (Some \<lparr>slug = Some (nodeSlug node),
                           frontmatter = Some [(''title'', JStr (displayName node)),
                                               (''tags'', JArr [])],
                           dates = Some d, toc = None\<rparr>)
            \<and> created d = Max (created ` set (datedChildren node))
            \<and> modified d = Max (modified ` set (datedChildren node))
            \<and> published d = Max (published ` set (datedChildren node))))"
proof -
  have a: "\<exists>info. computeFolderInfo emptyRoot folderLabel folders content = Inr info \<and>
         map_of info folder =
           Some (emptyRoot,
                 \<lparr>slug = Some (folder @ [''index'']),
                  frontmatter = Some [(''title'', JStr (folderLabel @ '': '' @ slugString folder)),
                                      (''tags'', JArr [])],
                  dates = None, toc = None\<rparr>)"
    if d: "distinct folders" and m: "folder \<in> set folders"
      and sl: "\<forall>(t, f) \<in> set content. slug f \<noteq> None"
      and ne: "\<forall>(t, f) \<in> set content. map_option simplifySlug (slug f) \<noteq> Some folder"
  proof -
    have e: "explicitContent content folder = None"
      using ne by (simp add: explicitContent_None)
    have "map_of (map (\<lambda>k. (k, folderEntry emptyRoot folderLabel content k)) folders) folder =
          Some (folderEntry emptyRoot folderLabel content folder)"
      using m by (induction folders) auto
    then show ?thesis
      using computeFolderInfo_closed[OF d sl, of emptyRoot folderLabel] e
      by (simp add: folderEntry_def defaultFolderContent_def joinSegments_def)
  qed
  have b: "\<exists>d. pageOfChild True node =
                Inr (Some \<lparr>slug = Some (nodeSlug node),
                           frontmatter = Some [(''title'', JStr (displayName node)),
                                               (''tags'', JArr [])],
                           dates = Some d, toc = None\<rparr>)
            \<and> created d = Max (created ` set (datedChildren node))
            \<and> modified d = Max (modified ` set (datedChildren node))
            \<and> published d = Max (published ` set (datedChildren node))"
    if "nodeData node = None" "isFolder node" "datedChildren node \<noteq> []"
  proof -
    from getMostRecentDates_fields[OF that(3)] obtain d where
      d: "getMostRecentDates node = Inr d"
         "created d = Max (created ` set (datedChildren node))"
         "modified d = Max (modified ` set (datedChildren node))"
         "published d = Max (published ` set (datedChildren node))"
      by blast
    have "pageOfChild True node =
                Inr (Some \<lparr>slug = Some (nodeSlug node),
                           frontmatter = Some [(''title'', JStr (displayName node)),
                                               (''tags'', JArr [])],
                           dates = Some d, toc = None\<rparr>)"
      using that(1,2) d(1) by (simp add: pageOfChild_def syntheticFile_def)
    then show ?thesis using d(2,3,4) by blast
  qed
  show ?thesis
    using a b by blast
qed


text \<open>
  The theorem at the folder \<open>docs\<close> of the collection that holds \<open>docs/sub/page\<close> only, and
  at the node of \<open>docs/sub\<close>, whose child is dated.
\<close>

theorem synthesized_folder_nodes_witness:
  "distinct [[''docs'']] \<and> [''docs''] \<in> set [[''docs'']]
   \<and> slug subPage \<noteq> None \<and> map_option simplifySlug (slug subPage) \<noteq> Some [''docs'']
   \<and> computeFolderInfo () ''Folder'' [[''docs'']] [((), subPage)] =
       Inr [([''docs''], (),
             \<lparr>slug = Some [''docs'', ''index''],
              frontmatter = Some [(''title'', JStr ''Folder: docs''), (''tags'', JArr [])],
              dates = None, toc = None\<rparr>)]
   \<and> nodeData subNode = None \<and> isFolder subNode \<and> datedChildren subNode \<noteq> []
   \<and> pageOfChild True subNode =
       Inr (Some \<lparr>slug = Some [''docs'', ''sub'', ''index''],
                  frontmatter = Some [(''title'', JStr ''sub''), (''tags'', JArr [])],
                  dates = Some \<lparr>created = 10, modified = 20, published = 30\<rparr>, toc = None\<rparr>)"
proof -
  have c: "computeFolderInfo () ''Folder'' [[''docs'']] [((), subPage)] =
       Inr [([''docs''], (),
             \<lparr>slug = Some [''docs'', ''index''],
              frontmatter = Some [(''title'', JStr ''Folder: docs''), (''tags'', JArr [])],
              dates = None, toc = None\<rparr>)]"
    by (simp add: computeFolderInfo_def defaultFolderContent_def joinSegments_def subPage_def
        simplifySlug_def)
  have d: "datedChildren subNode \<noteq> []"
    by (simp add: datedChildren_def datesOfNodes_def subNode_def subPage_def)
  have g: "pageOfChild True subNode =
       Inr (Some \<lparr>slug = Some [''docs'', ''sub'', ''index''],
                  frontmatter = Some [(''title'', JStr ''sub''), (''tags'', JArr [])],
                  dates = Some \<lparr>created = 10, modified = 20, published = 30\<rparr>, toc = None\<rparr>)"
    by (simp add: pageOfChild_def syntheticFile_def getMostRecentDates_def subNode_def subPage_def)
  show ?thesis
    using synthesized_folder_nodes[of "[[''docs'']]" "[''docs'']" "[((), subPage)]" "()" "''Folder''"
        subNode] c d g
    by (simp add: subNode_def subPage_def simplifySlug_def)
qed


text \<open>
  C7 as stated fails. The node synthesized for the page of \<open>docs\<close> has the title
  \<open>Folder: docs\<close> and no dates. The row that stands for \<open>docs\<close> in a listing has the title
  \<open>docs\<close>, and its dates are those of the page \<open>docs/intro\<close>, (1, 2, 3), where recursing
  into the child folder \<open>docs/sub\<close> gives (10, 20, 30). And beside the file \<open>docs\<close>, the
  folder \<open>docs\<close>, which has no index file, gets the content of that file and no synthesized
  node.
\<close>

theorem synthesized_folder_dates_counterexample:
  "computeFolderInfo () ''Folder'' [[''docs'']] [((), introPage), ((), subPage)] =
     Inr [([''docs''], (),
           \<lparr>slug = Some [''docs'', ''index''],
            frontmatter = Some [(''title'', JStr ''Folder: docs''), (''tags'', JArr [])],
            dates = None, toc = None\<rparr>)]
   \<and> pageOfChild True docsNode =
       Inr (Some \<lparr>slug = Some [''docs'', ''index''],
                  frontmatter = Some [(''title'', JStr ''docs''), (''tags'', JArr [])],
                  dates = Some \<lparr>created = 1, modified = 2, published = 3\<rparr>, toc = None\<rparr>)
   \<and> spec_folderDates 99 docsNode = \<lparr>created = 10, modified = 20, published = 30\<rparr>
   \<and> computeFolderInfo () ''Folder'' [[''docs'']] [((), docsFile), ((), introPage)] =
       Inr [([''docs''], (), docsFile)]"
  by (simp add: computeFolderInfo_def defaultFolderContent_def joinSegments_def simplifySlug_def
      pageOfChild_def syntheticFile_def getMostRecentDates_def spec_folderDates_def docsNode_def
      subNode_def subPage_def introPage_def docsFile_def Let_def)


section \<open>Properties of the sibling ordering\<close>

text \<open>
  C5, as the code has it. The sign of the default comparator follows this chain: a folder
  before a file; within one kind, a numeric sort order ascending, equal sort orders being
  a tie; a node with a numeric sort order before one without; between nodes without, a
  dated node before an undated one and, of two dated nodes, the one with the more recent
  date of the configured type (modified, in the site configuration) first, equal dates
  being a tie; and only between nodes with neither sort order nor dates the collation of
  the lower-cased titles. For files \<open>x\<close> with sort order 2, \<open>y\<close> with sort order 1 and \<open>z\<close>
  without sort order, sorting yields \<open>y, x, z\<close> from every input order.
\<close>

theorem default_comparator_chain:
  "sgn (bySortOrderAndAlphabetical toLowerCase localeCompare cfg f1 f2) =
     precedence toLowerCase localeCompare cfg f1 f2
   \<and> (\<not> isFolderPath (slugOrEmpty x) \<and> \<not> isFolderPath (slugOrEmpty y) \<and>
      \<not> isFolderPath (slugOrEmpty z) \<and> sortorderOf x = Some (JNum 2) \<and>
      sortorderOf y = Some (JNum 1) \<and> \<not> isNumber (sortorderOf z) \<longrightarrow>
      (\<forall>files \<in> {[x, y, z], [x, z, y], [y, x, z], [y, z, x], [z, x, y], [z, y, x]}.
         sortBy (bySortOrderAndAlphabetical toLowerCase localeCompare cfg) files = [y, x, z]))"
proof -
  have a: "sgn (bySortOrderAndAlphabetical toLowerCase localeCompare cfg f1 f2) =
     precedence toLowerCase localeCompare cfg f1 f2"
    by (auto simp: bySortOrderAndAlphabetical_def precedence_def Let_def split: option.splits)
  have b: "sortBy (bySortOrderAndAlphabetical toLowerCase localeCompare cfg) files = [y, x, z]"
    if "\<not> isFolderPath (slugOrEmpty x)" "\<not> isFolderPath (slugOrEmpty y)"
      "\<not> isFolderPath (slugOrEmpty z)" "sortorderOf x = Some (JNum 2)"
      "sortorderOf y = Some (JNum 1)" "\<not> isNumber (sortorderOf z)"
      "files \<in> {[x, y, z], [x, z, y], [y, x, z], [y, z, x], [z, x, y], [z, y, x]}" for files
    using that by (auto simp: sortBy_def bySortOrderAndAlphabetical_def)
  show ?thesis using a b by blast
qed


text \<open>The theorem at the files \<open>a/x\<close>, \<open>a/y\<close> and \<open>a/z\<close> of the scenario.\<close>

theorem default_comparator_chain_witness:
  "\<not> isFolderPath (slugOrEmpty exampleX) \<and> \<not> isFolderPath (slugOrEmpty exampleY) \<and>
   \<not> isFolderPath (slugOrEmpty exampleZ) \<and> sortorderOf exampleX = Some (JNum 2) \<and>
   sortorderOf exampleY = Some (JNum 1) \<and> \<not> isNumber (sortorderOf exampleZ) \<and>
   sortBy (bySortOrderAndAlphabetical asciiLower codeCompare configuredDateType)
     [exampleX, exampleY, exampleZ] = [exampleY, exampleX, exampleZ] \<and>
   sortBy (bySortOrderAndAlphabetical asciiLower codeCompare configuredDateType)
     [exampleZ, exampleX, exampleY] = [exampleY, exampleX, exampleZ] \<and>
   sgn (bySortOrderAndAlphabetical asciiLower codeCompare configuredDateType exampleX exampleY) = 1 \<and>
   precedence asciiLower codeCompare configuredDateType exampleX exampleY = 1"
proof -
  have h: "\<not> isFolderPath (slugOrEmpty exampleX) \<and> \<not> isFolderPath (slugOrEmpty exampleY) \<and>
      \<not> isFolderPath (slugOrEmpty exampleZ) \<and> sortorderOf exampleX = Some (JNum 2) \<and>
      sortorderOf exampleY = Some (JNum 1) \<and> \<not> isNumber (sortorderOf exampleZ)"
    by (simp add: exampleX_def exampleY_def exampleZ_def isFolderPath_def slugOrEmpty_def
        sortorderOf_def)
  have p: "precedence asciiLower codeCompare configuredDateType exampleX exampleY = 1"
    by (simp add: precedence_def exampleX_def exampleY_def isFolderPath_def slugOrEmpty_def
        sortorderOf_def)
  show ?thesis
    using default_comparator_chain[of asciiLower codeCompare configuredDateType exampleX exampleY
        exampleX exampleY exampleZ] h p
    by simp
qed


text \<open>
  C5 as stated fails: for two files with the same sort order 1 and the titles \<open>b\<close> and
  \<open>a\<close>, the chain's final tie-break by name puts \<open>a\<close> first, while the comparator returns
  0 and the sort leaves \<open>b\<close> before \<open>a\<close>.
\<close>

theorem default_comparator_tie_counterexample:
  "bySortOrderAndAlphabetical asciiLower codeCompare configuredDateType tieB tieA = 0
   \<and> spec_chain asciiLower codeCompare tieB tieA = 1
   \<and> sortBy (bySortOrderAndAlphabetical asciiLower codeCompare configuredDateType) [tieB, tieA]
       = [tieB, tieA]"
  by (simp add: bySortOrderAndAlphabetical_def spec_chain_def tieA_def tieB_def sortorderOf_def
      isFolderPath_def slugOrEmpty_def titleLower_def asciiLower_def asciiLowerChar_def sortBy_def)


section \<open>Properties of the explorer's ordering\<close>

lemma numberOrAbsent_cases:
  "numberOrAbsent v \<Longrightarrow> v = None \<or> v = Some JNull \<or> (\<exists>n. v = Some (JNum n))"
  by (cases v rule: numberOrAbsent.cases) auto


text \<open>
  C6, as the code has it. For two siblings seen by the index page as files and by the
  explorer as trie nodes, with the frontmatter cache holding the files' sort orders, the
  two comparators order the pair the same way when one is a folder and the other a file,
  and when both are files of which at least one has a numeric sort order (a sort order
  being a number, null or absent). The explorer never takes a sort order for a folder and
  never looks at dates, so on other pairs the two orders are unrelated.
\<close>

theorem comparators_agree_on_sort_order:
  assumes "sameSibling frontmatterCache a f1" and "sameSibling frontmatterCache b f2"
    and "\<forall>n. toNumber (JNum n) = Some n"
    and "isFolder a \<noteq> isFolder b \<or>
         (\<not> isFolder a \<and> \<not> isFolder b \<and>
          (isNumber (sortorderOf f1) \<or> isNumber (sortorderOf f2)) \<and>
          numberOrAbsent (sortorderOf f1) \<and> numberOrAbsent (sortorderOf f2))"
  shows "map_option sgn (createCustomSortFn localeCompareBase toNumber frontmatterCache a b) =
         Some (sgn (bySortOrderAndAlphabetical toLowerCase localeCompare cfg f1 f2))"
proof (cases "isFolder a \<noteq> isFolder b")
  case True
  then show ?thesis
    using assms(1,2)
    by (auto simp: createCustomSortFn_def bySortOrderAndAlphabetical_def sameSibling_def Let_def)
next
  case False
  then have files: "\<not> isFolder a" "\<not> isFolder b"
    and num: "isNumber (sortorderOf f1) \<or> isNumber (sortorderOf f2)"
    and na: "numberOrAbsent (sortorderOf f1)" "numberOrAbsent (sortorderOf f2)"
    using assms(4) by auto
  have g1: "getSortOrder frontmatterCache a =
              (if isNumber (sortorderOf f1) then sortorderOf f1 else None)"
    using assms(1) files(1) numberOrAbsent_cases[OF na(1)]
    by (auto simp: getSortOrder_def sameSibling_def split: option.splits)
  have g2: "getSortOrder frontmatterCache b =
              (if isNumber (sortorderOf f2) then sortorderOf f2 else None)"
    using assms(2) files(2) numberOrAbsent_cases[OF na(2)]
    by (auto simp: getSortOrder_def sameSibling_def split: option.splits)
  have k: "\<not> isFolderPath (slugOrEmpty f1)" "\<not> isFolderPath (slugOrEmpty f2)"
    using assms(1,2) files by (auto simp: sameSibling_def)
  show ?thesis
    using num numberOrAbsent_cases[OF na(1)] numberOrAbsent_cases[OF na(2)] assms(3) files k
    by (auto simp: createCustomSortFn_def bySortOrderAndAlphabetical_def g1 g2 jsMinus_def)
qed


text \<open>
  The theorem at the files \<open>a/x\<close> (sort order 2) and \<open>a/y\<close> (sort order 1), with the cache
  filled from the frontmatter index of the two files.
\<close>

theorem comparators_agree_on_sort_order_witness:
  "sameSibling (cacheOfIndex (frontmatterIndexLoop [((), exampleX), ((), exampleY)] []))
     (TrieNode False [''a'', ''x''] ''x'' (Some ()) []) exampleX
   \<and> sameSibling (cacheOfIndex (frontmatterIndexLoop [((), exampleX), ((), exampleY)] []))
     (TrieNode False [''a'', ''y''] ''y'' (Some ()) []) exampleY
   \<and> (\<forall>n. numberToNumber (JNum n) = Some n)
   \<and> isNumber (sortorderOf exampleX) \<and> numberOrAbsent (sortorderOf exampleX)
   \<and> numberOrAbsent (sortorderOf exampleY)
   \<and> createCustomSortFn codeCompareBase numberToNumber
        (cacheOfIndex (frontmatterIndexLoop [((), exampleX), ((), exampleY)] []))
        (TrieNode False [''a'', ''x''] ''x'' (Some ()) [])
        (TrieNode False [''a'', ''y''] ''y'' (Some ()) []) = Some 1
   \<and> bySortOrderAndAlphabetical asciiLower codeCompare configuredDateType exampleX exampleY = 1"
proof -
  let ?cache = "cacheOfIndex (frontmatterIndexLoop [((), exampleX), ((), exampleY)] [])"
  let ?a = "TrieNode False [''a'', ''x''] ''x'' (Some ()) [] :: unit trieNode"
  let ?b = "TrieNode False [''a'', ''y''] ''y'' (Some ()) [] :: unit trieNode"
  have s1: "sameSibling ?cache ?a exampleX" and s2: "sameSibling ?cache ?b exampleY"
    by (simp_all add: sameSibling_def cacheOfIndex_def exampleX_def exampleY_def slugKey_def
        frontmatterOrEmpty_def tocOrEmpty_def indexEntry_def assignProperty_def isFolderPath_def slugOrEmpty_def
        sortorderOf_def)
  have n: "\<forall>n. numberToNumber (JNum n) = Some n" by simp
  have so: "isNumber (sortorderOf exampleX)" "numberOrAbsent (sortorderOf exampleX)"
    "numberOrAbsent (sortorderOf exampleY)"
    by (simp_all add: exampleX_def exampleY_def sortorderOf_def)
  have c: "isFolder ?a \<noteq> isFolder ?b \<or>
         (\<not> isFolder ?a \<and> \<not> isFolder ?b \<and>
          (isNumber (sortorderOf exampleX) \<or> isNumber (sortorderOf exampleY)) \<and>
          numberOrAbsent (sortorderOf exampleX) \<and> numberOrAbsent (sortorderOf exampleY))"
    using so by simp
  have v: "bySortOrderAndAlphabetical asciiLower codeCompare configuredDateType exampleX exampleY = 1"
    by (simp add: bySortOrderAndAlphabetical_def exampleX_def exampleY_def sortorderOf_def
        isFolderPath_def slugOrEmpty_def)
  have w: "createCustomSortFn codeCompareBase numberToNumber ?cache ?a ?b = Some 1"
    by (simp add: createCustomSortFn_def getSortOrder_def cacheOfIndex_def exampleX_def
        exampleY_def slugKey_def frontmatterOrEmpty_def tocOrEmpty_def indexEntry_def assignProperty_def jsMinus_def)
  show ?thesis
    using comparators_agree_on_sort_order[OF s1 s2 n c, of codeCompareBase asciiLower codeCompare
        configuredDateType] s1 s2 so v w
    by simp
qed


text \<open>
  C6 as stated fails: \<open>alpha\<close> and \<open>beta\<close> have no sort order, and \<open>beta\<close> is the more
  recently modified. The index page puts \<open>beta\<close> first (the comparator is positive), the
  explorer puts \<open>alpha\<close> first (negative).
\<close>

theorem comparators_disagree_counterexample:
  "sameSibling exampleCache alphaNode alphaFile \<and> sameSibling exampleCache betaNode betaFile
   \<and> bySortOrderAndAlphabetical asciiLower codeCompare configuredDateType alphaFile betaFile = 1
   \<and> createCustomSortFn codeCompareBase numberToNumber exampleCache alphaNode betaNode = Some (- 1)"
  by (simp add: sameSibling_def exampleCache_def cacheOfIndex_def alphaNode_def betaNode_def
      alphaFile_def betaFile_def slugKey_def frontmatterOrEmpty_def tocOrEmpty_def indexEntry_def assignProperty_def
      isFolderPath_def slugOrEmpty_def sortorderOf_def bySortOrderAndAlphabetical_def
      configuredDateType_def getDate_def createCustomSortFn_def getSortOrder_def
      codeCompareBase_def asciiLower_def asciiLowerChar_def)

section \<open>Properties of the build script\<close>

subsection \<open>Nothing escapes the handlers\<close>

lemma seq_append:
  "seq (xs @ ys) w = (case seq xs w of (None, w') \<Rightarrow> seq ys w' | (Some e, w') \<Rightarrow> (Some e, w'))"
  by (induction xs arbitrary: w) (auto split: prod.splits option.splits)

lemma copyFile_returns: "fst (copyFile env src dest w) = None"
  by (simp add: copyFile_def tryCatch_def say_def split: prod.splits option.splits)

lemma tryCatch_say_returns: "fst (tryCatch m (\<lambda>error. say s (f error)) w) = None"
  by (simp add: tryCatch_def say_def split: prod.splits option.splits)

lemma copy_returns:
  "fst (copyDirectory env flt node src dest w) = None"
  "fst (copyEntries env flt entries src dest w) = None"
proof (induction env flt node src dest w and env flt entries src dest w
       rule: copyDirectory_copyEntries.induct)
  case (1 env ignoreFilter st entries src dest w)
  show ?case by (simp add: tryCatch_say_returns)
next
  case (2 env ignoreFilter bytes st src dest w)
  show ?case by (simp add: tryCatch_say_returns)
next
  case (3 env ignoreFilter src dest w)
  show ?case by simp
next
  case (4 env ignoreFilter name node rest src dest w)
  let ?ign = "case ignoreFilter of None \<Rightarrow> False | Some ig \<Rightarrow> ignores (matches env) ig (src @ [name])"
  show ?case
  proof (cases ?ign)
    case True
    then show ?thesis using "4.IH"(1)[OF refl refl] by simp
  next
    case False
    let ?first = "case node of File bytes st \<Rightarrow> copyFile env (src @ [name]) (dest @ [name]) w
            | Dir st sub \<Rightarrow> copyDirectory env ignoreFilter node (src @ [name]) (dest @ [name]) w"
    obtain r w' where first: "?first = (r, w')" by (cases ?first)
    have "r = None"
    proof (cases node)
      case (File bytes st)
      then show ?thesis using first copyFile_returns[of env "src @ [name]" "dest @ [name]" w] by simp
    next
      case (Dir st sub)
      then show ?thesis using first "4.IH"(2)[OF refl refl False refl Dir] by simp
    qed
    then show ?thesis
      using False first "4.IH"(3)[OF refl refl False refl first[symmetric]] by (simp add: Let_def)
  qed
qed

lemma createGitLink_returns: "fst (createGitLink env w) = None"
  unfolding createGitLink_def by (rule tryCatch_say_returns)

lemma createGitignoreFilter_result:
  "createGitignoreFilter env w =
     (Inr (compiledRules env),
      (case fault env (OpReadFile [''.gitignore'']) of
         None \<Rightarrow> w
       | Some e \<Rightarrow> w\<lparr>console := console w @
                       [(Warn, ''Could not read .gitignore, using default exclusions'')]\<rparr>))"
  by (simp add: createGitignoreFilter_def compiledRules_def say_def split: option.splits)


subsection \<open>Where the files written can grow\<close>

lemma grows_refl: "grows ok w w"
  by (simp add: grows_def)

lemma grows_trans: "grows ok w w' \<Longrightarrow> grows ok w' w'' \<Longrightarrow> grows ok w w''"
  unfolding grows_def by blast

lemma grows_mono: "grows ok w w' \<Longrightarrow> (\<And>q. ok q \<Longrightarrow> ok' q) \<Longrightarrow> grows ok' w w'"
  unfolding grows_def by blast

lemma growing_mono: "growing ok m \<Longrightarrow> (\<And>q. ok q \<Longrightarrow> ok' q) \<Longrightarrow> growing ok' m"
  unfolding growing_def using grows_mono by blast

lemma growing_say: "growing ok (say s line)"
  by (simp add: growing_def say_def grows_def)

lemma growing_skip: "growing ok skip"
  by (simp add: growing_def skip_def grows_def)

lemma growing_throw: "growing ok (throw e)"
  by (simp add: growing_def throw_def grows_def)

lemma growing_seq_Nil: "growing ok (seq [])"
  by (simp add: growing_def grows_def)

lemma growing_seq_Cons:
  assumes "growing ok m" and "growing ok (seq ms)"
  shows "growing ok (seq (m # ms))"
  unfolding growing_def
proof
  fix w
  obtain r w' where mw: "m w = (r, w')" by (cases "m w")
  have g1: "grows ok w w'" using assms(1) mw unfolding growing_def by (metis snd_conv)
  show "grows ok w (snd (seq (m # ms) w))"
  proof (cases r)
    case None
    have "grows ok w' (snd (seq ms w'))" using assms(2) unfolding growing_def by blast
    then have "grows ok w (snd (seq ms w'))" using g1 grows_trans by blast
    then show ?thesis using None mw by simp
  next
    case (Some e)
    then show ?thesis using mw g1 by simp
  qed
qed

lemma growing_if: "growing ok a \<Longrightarrow> growing ok b \<Longrightarrow> growing ok (if c then a else b)"
  by simp

lemma growing_tryCatch:
  "growing ok m \<Longrightarrow> (\<And>e. growing ok (h e)) \<Longrightarrow> growing ok (tryCatch m h)"
  unfolding growing_def
proof
  fix w
  assume m: "\<forall>w. grows ok w (snd (m w))" and h: "\<And>e. \<forall>w. grows ok w (snd (h e w))"
  obtain r w' where mw: "m w = (r, w')" by (cases "m w")
  have g1: "grows ok w w'" using m mw by (metis snd_conv)
  show "grows ok w (snd (tryCatch m h w))"
  proof (cases r)
    case None
    then show ?thesis using mw g1 by (simp add: tryCatch_def)
  next
    case (Some e)
    have "grows ok w' (snd (h e w'))" using h by blast
    then have "grows ok w (snd (h e w'))" using g1 grows_trans by blast
    then show ?thesis using Some mw by (simp add: tryCatch_def)
  qed
qed

lemma mkdirChain_grows:
  "snd (mkdirChain fresh qs fs) q \<noteq> None \<Longrightarrow> fs q \<noteq> None \<or> q \<in> set qs"
proof (induction qs arbitrary: fs)
  case Nil
  then show ?case by simp
next
  case (Cons a qs)
  show ?case
  proof (cases "fs a")
    case None
    then have "snd (mkdirChain fresh qs (fs(a \<mapsto> FDir fresh))) q \<noteq> None"
      using Cons.prems by simp
    from Cons.IH[OF this] show ?thesis by (auto split: if_splits)
  next
    case (Some n)
    show ?thesis
    proof (cases n)
      case (FFile bytes st)
      then show ?thesis using Some Cons.prems by simp
    next
      case (FDir st)
      then have "snd (mkdirChain fresh qs fs) q \<noteq> None"
        using Some Cons.prems by simp
      from Cons.IH[OF this] show ?thesis by auto
    next
      case (FLink t)
      then show ?thesis using Some Cons.prems by simp
    qed
  qed
qed

lemma tl_prefixes: "q \<in> set (tl (prefixes p)) \<Longrightarrow> q \<noteq> [] \<and> prefix q p"
  by (cases p) (auto simp: in_set_prefixes)

lemma growing_mkdir: "growing (\<lambda>q. q \<noteq> [] \<and> prefix q p) (mkdir env p)"
  unfolding growing_def grows_def
proof (intro allI impI)
  fix w q
  assume a: "files (snd (mkdir env p w)) q \<noteq> None"
  show "files w q \<noteq> None \<or> q \<noteq> [] \<and> prefix q p"
  proof (cases "fault env (OpMkdir p)")
    case None
    then have "snd (mkdirChain (freshStats env) (tl (prefixes p)) (files w)) q \<noteq> None"
      using a by (simp add: mkdir_def split: prod.splits)
    from mkdirChain_grows[OF this] tl_prefixes show ?thesis by blast
  next
    case (Some e)
    then show ?thesis using a by (simp add: mkdir_def)
  qed
qed

lemma growing_fsCopyFile: "growing (\<lambda>q. q \<noteq> [] \<and> q = dest) (fsCopyFile env src dest)"
  unfolding growing_def grows_def
  by (auto simp: fsCopyFile_def split: option.splits fsnode.splits fnode.splits if_splits)

lemma setStats_dom: "snd (setStats f fs p) q \<noteq> None \<Longrightarrow> fs q \<noteq> None"
  by (auto simp: setStats_def split: option.splits fnode.splits if_splits)

lemma growing_utimes: "growing ok (utimes env p a m)"
  unfolding growing_def grows_def
proof (intro allI impI)
  fix w q
  assume a: "files (snd (utimes env p a m w)) q \<noteq> None"
  show "files w q \<noteq> None \<or> ok q"
  proof (cases "fault env (OpUtimes p)")
    case None
    then have "snd (setStats (\<lambda>st. st\<lparr>atime := a, mtime := m\<rparr>) (files w) p) q \<noteq> None"
      using a by (simp add: utimes_def split: prod.splits)
    from setStats_dom[OF this] show ?thesis by simp
  next
    case (Some e)
    then show ?thesis using a by (simp add: utimes_def)
  qed
qed

lemma growing_chmod: "growing ok (chmod env p md)"
  unfolding growing_def grows_def
proof (intro allI impI)
  fix w q
  assume a: "files (snd (chmod env p md w)) q \<noteq> None"
  show "files w q \<noteq> None \<or> ok q"
  proof (cases "fault env (OpChmod p)")
    case None
    then have "snd (setStats (\<lambda>st. st\<lparr>mode := md\<rparr>) (files w) p) q \<noteq> None"
      using a by (simp add: chmod_def split: prod.splits)
    from setStats_dom[OF this] show ?thesis by simp
  next
    case (Some e)
    then show ?thesis using a by (simp add: chmod_def)
  qed
qed

lemma growing_stat_then:
  "(\<And>st. growing ok (k st)) \<Longrightarrow>
   growing ok (\<lambda>w. case fsStat env src of Inl e \<Rightarrow> (Some e, w) | Inr st \<Rightarrow> k st w)"
  unfolding growing_def by (cases "fsStat env src") (auto simp: grows_def)

lemma prefix_butlast_trans: "prefix q (butlast dest) \<Longrightarrow> prefix q dest"
  using prefixeq_butlast[of dest] by (rule prefix_order.trans[rotated])

lemma growing_mkdir_parent: "growing (\<lambda>q. q \<noteq> [] \<and> prefix q dest) (mkdir env (butlast dest))"
  by (rule growing_mono[OF growing_mkdir[of "butlast dest" env]]) (simp add: prefix_butlast_trans)

lemma growing_fsCopyFile_prefix:
  "growing (\<lambda>q. q \<noteq> [] \<and> prefix q dest) (fsCopyFile env src dest)"
  by (rule growing_mono[OF growing_fsCopyFile[of dest env src]]) simp

lemma growing_copyFile: "growing (\<lambda>q. q \<noteq> [] \<and> prefix q dest) (copyFile env src dest)"
  unfolding copyFile_def copyFileTry_def
  by (intro growing_tryCatch growing_seq_Cons growing_seq_Nil growing_stat_then growing_if
      growing_mkdir_parent growing_fsCopyFile_prefix growing_utimes growing_chmod growing_say
      growing_skip)

lemma prefix_mirrored:
  assumes "\<forall>r. r \<noteq> [] \<and> prefix r src \<longrightarrow> \<not> ignores m ig r"
    and "q \<noteq> []" and "prefix q (BUILD_DIR @ src)"
  shows "mirrored m ig q"
proof -
  from assms(2,3) obtain r where r: "q = BUILD_DIR @ r" "prefix r src"
    by (cases q) (auto simp: BUILD_DIR_def)
  show ?thesis
    unfolding mirrored_def using r assms(1) by blast
qed

lemma growing_readdir_then:
  "(\<And>x. fault env (OpReaddir src) = None \<Longrightarrow> grows ok x (snd (k x))) \<Longrightarrow>
   growing ok (\<lambda>w. case fault env (OpReaddir src) of Some e \<Rightarrow> (Some e, w) | None \<Rightarrow> k w)"
  unfolding growing_def by (cases "fault env (OpReaddir src)") (auto simp: grows_def)

lemma copy_grows:
  "flt = Some ig \<Longrightarrow> dest = BUILD_DIR @ src \<Longrightarrow>
   \<forall>r. r \<noteq> [] \<and> prefix r src \<longrightarrow> \<not> ignores (matches env) ig r \<Longrightarrow>
   grows (mirrored (matches env) ig) w (snd (copyDirectory env flt node src dest w))"
  "flt = Some ig \<Longrightarrow> dest = BUILD_DIR @ src \<Longrightarrow>
   \<forall>r. r \<noteq> [] \<and> prefix r src \<longrightarrow> \<not> ignores (matches env) ig r \<Longrightarrow>
   grows (mirrored (matches env) ig) w (snd (copyEntries env flt entries src dest w))"
proof (induction env flt node src dest w and env flt entries src dest w
       rule: copyDirectory_copyEntries.induct)
  case (1 env ignoreFilter st entries src dest w)
  let ?ok = "mirrored (matches env) ig"
  have mk: "growing ?ok (mkdir env dest)"
    by (rule growing_mono[OF growing_mkdir[of dest env]])
       (use "1.prems" prefix_mirrored in blast)
  have rd: "growing ?ok (\<lambda>w. case fault env (OpReaddir src) of Some e \<Rightarrow> (Some e, w)
                              | None \<Rightarrow> copyEntries env ignoreFilter entries src dest w)"
    by (rule growing_readdir_then) (use "1.IH" "1.prems" in blast)
  have "growing ?ok (copyDirectory env ignoreFilter (Dir st entries) src dest)"
    unfolding growing_def
  proof
    fix w'
    have g: "growing ?ok (tryCatch
       (seq [mkdir env dest,
             (\<lambda>w. case fsStat env src of
                     Inl e \<Rightarrow> (Some e, w)
                   | Inr dirStats \<Rightarrow>
                       seq [utimes env dest (atime dirStats) (mtime dirStats),
                            chmod env dest (mode dirStats)] w),
             (\<lambda>w. case fault env (OpReaddir src) of
                     Some e \<Rightarrow> (Some e, w)
                   | None \<Rightarrow> copyEntries env ignoreFilter entries src dest w)])
       (\<lambda>error. say Warn (''Warning: Could not copy directory '' @ pathString src @ '': '' @
                           message error)))"
      by (intro growing_tryCatch growing_seq_Cons growing_seq_Nil growing_stat_then mk rd
          growing_utimes growing_chmod growing_say)
    show "grows ?ok w' (snd (copyDirectory env ignoreFilter (Dir st entries) src dest w'))"
      using g unfolding growing_def by simp
  qed
  then show ?case unfolding growing_def by blast
next
  case (2 env ignoreFilter bytes st src dest w)
  let ?ok = "mirrored (matches env) ig"
  have mk: "growing ?ok (mkdir env dest)"
    by (rule growing_mono[OF growing_mkdir[of dest env]])
       (use "2.prems" prefix_mirrored in blast)
  have g: "growing ?ok (tryCatch
       (seq [mkdir env dest,
             (\<lambda>w. case fsStat env src of
                     Inl e \<Rightarrow> (Some e, w)
                   | Inr dirStats \<Rightarrow>
                       seq [utimes env dest (atime dirStats) (mtime dirStats),
                            chmod env dest (mode dirStats)] w),
             throw (Error ''ENOTDIR: not a directory'')])
       (\<lambda>error. say Warn (''Warning: Could not copy directory '' @ pathString src @ '': '' @
                           message error)))"
    by (intro growing_tryCatch growing_seq_Cons growing_seq_Nil growing_stat_then mk
        growing_utimes growing_chmod growing_say growing_throw)
  show ?case using g unfolding growing_def by simp
next
  case (3 env ignoreFilter src dest w)
  show ?case by (simp add: grows_refl)
next
  case (4 env ignoreFilter name node rest src dest w)
  let ?ok = "mirrored (matches env) ig"
  let ?ign = "case ignoreFilter of None \<Rightarrow> False | Some ig \<Rightarrow> ignores (matches env) ig (src @ [name])"
  show ?case
  proof (cases ?ign)
    case True
    then show ?thesis using "4.IH"(1)[OF refl refl True "4.prems"] by simp
  next
    case False
    then have notign: "\<not> ignores (matches env) ig (src @ [name])"
      using "4.prems"(1) by simp
    have pre': "\<forall>r. r \<noteq> [] \<and> prefix r (src @ [name]) \<longrightarrow> \<not> ignores (matches env) ig r"
      using "4.prems"(3) notign by (auto simp: prefix_snoc)
    have dest': "dest @ [name] = BUILD_DIR @ (src @ [name])"
      using "4.prems"(2) by simp
    let ?first = "case node of File bytes st \<Rightarrow> copyFile env (src @ [name]) (dest @ [name]) w
            | Dir st sub \<Rightarrow> copyDirectory env ignoreFilter node (src @ [name]) (dest @ [name]) w"
    obtain r w' where first: "?first = (r, w')" by (cases ?first)
    have g1: "grows ?ok w w'"
    proof (cases node)
      case (File bytes st)
      have "growing ?ok (copyFile env (src @ [name]) (dest @ [name]))"
        by (rule growing_mono[OF growing_copyFile[of "dest @ [name]" env "src @ [name]"]])
           (use pre' dest' prefix_mirrored in metis)
      then show ?thesis using first File unfolding growing_def by (metis fsnode.simps(5) snd_conv)
    next
      case (Dir st sub)
      have "grows ?ok w (snd (copyDirectory env ignoreFilter node (src @ [name]) (dest @ [name]) w))"
        using "4.IH"(2)[OF refl refl False refl Dir "4.prems"(1) dest' pre'] .
      then show ?thesis using first Dir by simp
    qed
    show ?thesis
    proof (cases r)
      case None
      have "grows ?ok w' (snd (copyEntries env ignoreFilter rest src dest w'))"
        using "4.IH"(3)[OF refl refl False refl first[symmetric] None "4.prems"] .
      then have "grows ?ok w (snd (copyEntries env ignoreFilter rest src dest w'))"
        using g1 grows_trans by blast
      then show ?thesis using False first None by (simp add: Let_def)
    next
      case (Some e)
      then show ?thesis using False first g1 by (simp add: Let_def)
    qed
  qed
qed

lemma growing_awaitChild: "growing ok (awaitChild c inherit failure)"
  by (auto simp: growing_def grows_def awaitChild_def Let_def split: childEnd.splits)

lemma growing_fsSymlink: "growing (\<lambda>q. q = linkPath) (fsSymlink env target linkPath)"
  by (auto simp: growing_def grows_def fsSymlink_def split: option.splits if_splits)

lemma growing_put: "growing (\<lambda>q. q = k) (\<lambda>w. (None, w\<lparr>files := (files w)(k \<mapsto> v)\<rparr>))"
  by (auto simp: growing_def grows_def)

lemma growing_createGitLink:
  "growing (\<lambda>q. q = BUILD_DIR @ [''.git'']) (createGitLink env)"
  unfolding createGitLink_def createGitLinkTry_def Let_def
  by (intro growing_tryCatch growing_seq_Cons growing_seq_Nil growing_if growing_awaitChild
      growing_fsSymlink growing_put growing_say)

lemma growing_mirror_copy:
  "growing (mirrored (matches env) (compiledRules env))
     (\<lambda>w. case createGitignoreFilter env w of
             (Inl e, w') \<Rightarrow> (Some e, w')
           | (Inr ignoreFilter, w') \<Rightarrow>
               copyDirectory env (Some ignoreFilter) (Dir (rootStats env) (workspace env))
                 [] BUILD_DIR w')"
  unfolding growing_def
proof
  fix w :: world
  let ?w' = "case fault env (OpReadFile [''.gitignore'']) of
         None \<Rightarrow> w
       | Some e \<Rightarrow> w\<lparr>console := console w @
                       [(Warn, ''Could not read .gitignore, using default exclusions'')]\<rparr>"
  have f: "files ?w' = files w" by (simp split: option.splits)
  have "grows (mirrored (matches env) (compiledRules env)) ?w'
          (snd (copyDirectory env (Some (compiledRules env)) (Dir (rootStats env) (workspace env))
                 [] BUILD_DIR ?w'))"
    by (rule copy_grows(1)) simp_all
  then have "grows (mirrored (matches env) (compiledRules env)) w
          (snd (copyDirectory env (Some (compiledRules env)) (Dir (rootStats env) (workspace env))
                 [] BUILD_DIR ?w'))"
    using f unfolding grows_def by simp
  then show "grows (mirrored (matches env) (compiledRules env)) w
          (snd (case createGitignoreFilter env w of
             (Inl e, w') \<Rightarrow> (Some e, w')
           | (Inr ignoreFilter, w') \<Rightarrow>
               copyDirectory env (Some ignoreFilter) (Dir (rootStats env) (workspace env))
                 [] BUILD_DIR w'))"
    by (simp add: createGitignoreFilter_result)
qed

lemma ignores_nonempty: "ignores m ig p \<Longrightarrow> p \<noteq> []"
  by (auto simp: ignores_def)


subsection \<open>Which links a pass can make\<close>

lemma linksKept_refl: "linksKept w w"
  by (simp add: linksKept_def)

lemma linksKept_trans: "linksKept w w' \<Longrightarrow> linksKept w' w'' \<Longrightarrow> linksKept w w''"
  unfolding linksKept_def by blast

lemma linksKept_files: "files w' = files w \<Longrightarrow> linksKept w w'"
  by (simp add: linksKept_def)

lemma keepsLinks_say: "keepsLinks (say s line)"
  by (simp add: keepsLinks_def say_def linksKept_def)

lemma keepsLinks_skip: "keepsLinks skip"
  by (simp add: keepsLinks_def skip_def linksKept_def)

lemma keepsLinks_throw: "keepsLinks (throw e)"
  by (simp add: keepsLinks_def throw_def linksKept_def)

lemma keepsLinks_seq_Nil: "keepsLinks (seq [])"
  by (simp add: keepsLinks_def linksKept_def)

lemma keepsLinks_seq_Cons:
  assumes "keepsLinks m" and "keepsLinks (seq ms)"
  shows "keepsLinks (seq (m # ms))"
  unfolding keepsLinks_def
proof
  fix w
  obtain r w' where mw: "m w = (r, w')" by (cases "m w")
  have g1: "linksKept w w'" using assms(1) mw unfolding keepsLinks_def by (metis snd_conv)
  show "linksKept w (snd (seq (m # ms) w))"
  proof (cases r)
    case None
    have "linksKept w' (snd (seq ms w'))" using assms(2) unfolding keepsLinks_def by blast
    then have "linksKept w (snd (seq ms w'))" using g1 linksKept_trans by blast
    then show ?thesis using None mw by simp
  next
    case (Some e)
    then show ?thesis using mw g1 by simp
  qed
qed

lemma keepsLinks_if: "keepsLinks a \<Longrightarrow> keepsLinks b \<Longrightarrow> keepsLinks (if c then a else b)"
  by simp

lemma keepsLinks_tryCatch:
  "keepsLinks m \<Longrightarrow> (\<And>e. keepsLinks (h e)) \<Longrightarrow> keepsLinks (tryCatch m h)"
  unfolding keepsLinks_def
proof
  fix w
  assume m: "\<forall>w. linksKept w (snd (m w))" and h: "\<And>e. \<forall>w. linksKept w (snd (h e w))"
  obtain r w' where mw: "m w = (r, w')" by (cases "m w")
  have g1: "linksKept w w'" using m mw by (metis snd_conv)
  show "linksKept w (snd (tryCatch m h w))"
  proof (cases r)
    case None
    then show ?thesis using mw g1 by (simp add: tryCatch_def)
  next
    case (Some e)
    have "linksKept w' (snd (h e w'))" using h by blast
    then have "linksKept w (snd (h e w'))" using g1 linksKept_trans by blast
    then show ?thesis using Some mw by (simp add: tryCatch_def)
  qed
qed

lemma mkdirChain_links:
  "isLink (snd (mkdirChain fresh qs fs) q) \<Longrightarrow> isLink (fs q)"
proof (induction qs arbitrary: fs)
  case Nil
  then show ?case by simp
next
  case (Cons a qs)
  show ?case
  proof (cases "fs a")
    case None
    then have "isLink (snd (mkdirChain fresh qs (fs(a \<mapsto> FDir fresh))) q)"
      using Cons.prems by simp
    from Cons.IH[OF this] show ?thesis by (auto split: if_splits)
  next
    case (Some n)
    show ?thesis
    proof (cases n)
      case (FFile bytes st)
      then show ?thesis using Some Cons.prems by simp
    next
      case (FDir st)
      then have "isLink (snd (mkdirChain fresh qs fs) q)"
        using Some Cons.prems by simp
      from Cons.IH[OF this] show ?thesis .
    next
      case (FLink t)
      then show ?thesis using Some Cons.prems by simp
    qed
  qed
qed

lemma keepsLinks_mkdir: "keepsLinks (mkdir env p)"
  unfolding keepsLinks_def linksKept_def
proof (intro allI impI)
  fix w q
  assume a: "isLink (files (snd (mkdir env p w)) q)"
  show "isLink (files w q) \<or> q = BUILD_DIR @ [''.git'']"
  proof (cases "fault env (OpMkdir p)")
    case None
    then have "isLink (snd (mkdirChain (freshStats env) (tl (prefixes p)) (files w)) q)"
      using a by (simp add: mkdir_def split: prod.splits)
    from mkdirChain_links[OF this] show ?thesis by simp
  next
    case (Some e)
    then show ?thesis using a by (simp add: mkdir_def)
  qed
qed

lemma keepsLinks_fsCopyFile: "keepsLinks (fsCopyFile env src dest)"
  unfolding keepsLinks_def linksKept_def
  by (auto simp: fsCopyFile_def split: option.splits fsnode.splits fnode.splits if_splits)

lemma setStats_links: "isLink (snd (setStats f fs p) q) \<Longrightarrow> isLink (fs q)"
  by (auto simp: setStats_def split: option.splits fnode.splits if_splits)

lemma keepsLinks_utimes: "keepsLinks (utimes env p a m)"
  unfolding keepsLinks_def linksKept_def
proof (intro allI impI)
  fix w q
  assume a: "isLink (files (snd (utimes env p a m w)) q)"
  show "isLink (files w q) \<or> q = BUILD_DIR @ [''.git'']"
  proof (cases "fault env (OpUtimes p)")
    case None
    then have "isLink (snd (setStats (\<lambda>st. st\<lparr>atime := a, mtime := m\<rparr>) (files w) p) q)"
      using a by (simp add: utimes_def split: prod.splits)
    from setStats_links[OF this] show ?thesis by simp
  next
    case (Some e)
    then show ?thesis using a by (simp add: utimes_def)
  qed
qed

lemma keepsLinks_chmod: "keepsLinks (chmod env p md)"
  unfolding keepsLinks_def linksKept_def
proof (intro allI impI)
  fix w q
  assume a: "isLink (files (snd (chmod env p md w)) q)"
  show "isLink (files w q) \<or> q = BUILD_DIR @ [''.git'']"
  proof (cases "fault env (OpChmod p)")
    case None
    then have "isLink (snd (setStats (\<lambda>st. st\<lparr>mode := md\<rparr>) (files w) p) q)"
      using a by (simp add: chmod_def split: prod.splits)
    from setStats_links[OF this] show ?thesis by simp
  next
    case (Some e)
    then show ?thesis using a by (simp add: chmod_def)
  qed
qed

lemma keepsLinks_stat_then:
  "(\<And>st. keepsLinks (k st)) \<Longrightarrow>
   keepsLinks (\<lambda>w. case fsStat env src of Inl e \<Rightarrow> (Some e, w) | Inr st \<Rightarrow> k st w)"
  unfolding keepsLinks_def by (cases "fsStat env src") (auto simp: linksKept_def)

lemma keepsLinks_copyFile: "keepsLinks (copyFile env src dest)"
  unfolding copyFile_def copyFileTry_def
  by (intro keepsLinks_tryCatch keepsLinks_seq_Cons keepsLinks_seq_Nil keepsLinks_stat_then
      keepsLinks_if keepsLinks_mkdir keepsLinks_fsCopyFile keepsLinks_utimes keepsLinks_chmod
      keepsLinks_say keepsLinks_skip)

lemma keepsLinks_readdir_then:
  "(\<And>x. fault env (OpReaddir src) = None \<Longrightarrow> linksKept x (snd (k x))) \<Longrightarrow>
   keepsLinks (\<lambda>w. case fault env (OpReaddir src) of Some e \<Rightarrow> (Some e, w) | None \<Rightarrow> k w)"
  unfolding keepsLinks_def by (cases "fault env (OpReaddir src)") (auto simp: linksKept_def)

lemma copy_keeps_links:
  "linksKept w (snd (copyDirectory env flt node src dest w))"
  "linksKept w (snd (copyEntries env flt entries src dest w))"
proof (induction env flt node src dest w and env flt entries src dest w
       rule: copyDirectory_copyEntries.induct)
  case (1 env ignoreFilter st entries src dest w)
  have rd: "keepsLinks (\<lambda>w. case fault env (OpReaddir src) of Some e \<Rightarrow> (Some e, w)
                              | None \<Rightarrow> copyEntries env ignoreFilter entries src dest w)"
    by (rule keepsLinks_readdir_then) (use "1.IH" in blast)
  have g: "keepsLinks (tryCatch
       (seq [mkdir env dest,
             (\<lambda>w. case fsStat env src of
                     Inl e \<Rightarrow> (Some e, w)
                   | Inr dirStats \<Rightarrow>
                       seq [utimes env dest (atime dirStats) (mtime dirStats),
                            chmod env dest (mode dirStats)] w),
             (\<lambda>w. case fault env (OpReaddir src) of
                     Some e \<Rightarrow> (Some e, w)
                   | None \<Rightarrow> copyEntries env ignoreFilter entries src dest w)])
       (\<lambda>error. say Warn (''Warning: Could not copy directory '' @ pathString src @ '': '' @
                           message error)))"
    by (intro keepsLinks_tryCatch keepsLinks_seq_Cons keepsLinks_seq_Nil keepsLinks_stat_then
        keepsLinks_mkdir rd keepsLinks_utimes keepsLinks_chmod keepsLinks_say)
  show ?case
    using g unfolding keepsLinks_def by simp
next
  case (2 env ignoreFilter bytes st src dest w)
  have g: "keepsLinks (tryCatch
       (seq [mkdir env dest,
             (\<lambda>w. case fsStat env src of
                     Inl e \<Rightarrow> (Some e, w)
                   | Inr dirStats \<Rightarrow>
                       seq [utimes env dest (atime dirStats) (mtime dirStats),
                            chmod env dest (mode dirStats)] w),
             throw (Error ''ENOTDIR: not a directory'')])
       (\<lambda>error. say Warn (''Warning: Could not copy directory '' @ pathString src @ '': '' @
                           message error)))"
    by (intro keepsLinks_tryCatch keepsLinks_seq_Cons keepsLinks_seq_Nil keepsLinks_stat_then
        keepsLinks_mkdir keepsLinks_utimes keepsLinks_chmod keepsLinks_say keepsLinks_throw)
  show ?case using g unfolding keepsLinks_def by simp
next
  case (3 env ignoreFilter src dest w)
  show ?case by (simp add: linksKept_refl)
next
  case (4 env ignoreFilter name node rest src dest w)
  let ?ign = "case ignoreFilter of None \<Rightarrow> False | Some ig \<Rightarrow> ignores (matches env) ig (src @ [name])"
  show ?case
  proof (cases ?ign)
    case True
    then show ?thesis using "4.IH"(1)[OF refl refl True] by simp
  next
    case False
    let ?first = "case node of File bytes st \<Rightarrow> copyFile env (src @ [name]) (dest @ [name]) w
            | Dir st sub \<Rightarrow> copyDirectory env ignoreFilter node (src @ [name]) (dest @ [name]) w"
    obtain r w' where first: "?first = (r, w')" by (cases ?first)
    have g1: "linksKept w w'"
    proof (cases node)
      case (File bytes st)
      have "keepsLinks (copyFile env (src @ [name]) (dest @ [name]))"
        by (rule keepsLinks_copyFile)
      then show ?thesis using first File unfolding keepsLinks_def by (metis fsnode.simps(5) snd_conv)
    next
      case (Dir st sub)
      have "linksKept w (snd (copyDirectory env ignoreFilter node (src @ [name]) (dest @ [name]) w))"
        using "4.IH"(2)[OF refl refl False refl Dir] .
      then show ?thesis using first Dir by simp
    qed
    show ?thesis
    proof (cases r)
      case None
      have "linksKept w' (snd (copyEntries env ignoreFilter rest src dest w'))"
        using "4.IH"(3)[OF refl refl False refl first[symmetric] None] .
      then have "linksKept w (snd (copyEntries env ignoreFilter rest src dest w'))"
        using g1 linksKept_trans by blast
      then show ?thesis using False first None by (simp add: Let_def)
    next
      case (Some e)
      then show ?thesis using False first g1 by (simp add: Let_def)
    qed
  qed
qed

lemma keepsLinks_awaitChild: "keepsLinks (awaitChild c inherit failure)"
  by (auto simp: keepsLinks_def linksKept_def awaitChild_def Let_def split: childEnd.splits)

lemma keepsLinks_fsSymlink: "keepsLinks (fsSymlink env target (BUILD_DIR @ [''.git'']))"
  by (auto simp: keepsLinks_def linksKept_def fsSymlink_def split: option.splits if_splits)

lemma keepsLinks_put:
  "keepsLinks (\<lambda>w. (None, w\<lparr>files := (files w)(BUILD_DIR @ [''.git''] \<mapsto> v)\<rparr>))"
  by (auto simp: keepsLinks_def linksKept_def)

lemma keepsLinks_createGitLink: "keepsLinks (createGitLink env)"
  unfolding createGitLink_def createGitLinkTry_def Let_def
  by (intro keepsLinks_tryCatch keepsLinks_seq_Cons keepsLinks_seq_Nil keepsLinks_if
      keepsLinks_awaitChild keepsLinks_fsSymlink keepsLinks_put keepsLinks_say)

lemma keepsLinks_mirror_copy:
  "keepsLinks
     (\<lambda>w. case createGitignoreFilter env w of
             (Inl e, w') \<Rightarrow> (Some e, w')
           | (Inr ignoreFilter, w') \<Rightarrow>
               copyDirectory env (Some ignoreFilter) (Dir (rootStats env) (workspace env))
                 [] BUILD_DIR w')"
  unfolding keepsLinks_def
proof
  fix w :: world
  let ?w' = "case fault env (OpReadFile [''.gitignore'']) of
         None \<Rightarrow> w
       | Some e \<Rightarrow> w\<lparr>console := console w @
                       [(Warn, ''Could not read .gitignore, using default exclusions'')]\<rparr>"
  have f: "files ?w' = files w" by (simp split: option.splits)
  have "linksKept ?w'
          (snd (copyDirectory env (Some (compiledRules env)) (Dir (rootStats env) (workspace env))
                 [] BUILD_DIR ?w'))"
    by (rule copy_keeps_links(1))
  then have "linksKept w
          (snd (copyDirectory env (Some (compiledRules env)) (Dir (rootStats env) (workspace env))
                 [] BUILD_DIR ?w'))"
    using f unfolding linksKept_def by simp
  then show "linksKept w
          (snd (case createGitignoreFilter env w of
             (Inl e, w') \<Rightarrow> (Some e, w')
           | (Inr ignoreFilter, w') \<Rightarrow>
               copyDirectory env (Some ignoreFilter) (Dir (rootStats env) (workspace env))
                 [] BUILD_DIR w'))"
    by (simp add: createGitignoreFilter_result)
qed

lemma testChain_parent:
  assumes "parentRev \<noteq> []" and "testChain m ig parentRev True"
  shows "testChain m ig (name # parentRev) isDir"
proof -
  have "testChain m ig (name # parentRev) isDir =
          (if parentRev = [] then testOne m ig ([name], isDir)
           else if testChain m ig parentRev True then True
           else testOne m ig (rev (name # parentRev), isDir))"
    by (rule testChain.simps(2))
  then show ?thesis using assms by simp
qed

lemma below_ignored_directory:
  assumes "d \<noteq> []" and "testChain m ig (rev d) True"
  shows "testChain m ig (rev (d @ xs)) isDir \<or> xs = []"
proof (induction xs arbitrary: isDir rule: rev_induct)
  case Nil
  then show ?case by simp
next
  case (snoc x xs)
  have parent: "testChain m ig (rev (d @ xs)) True"
  proof (cases "xs = []")
    case True
    then show ?thesis using assms(2) by simp
  next
    case False
    then show ?thesis using snoc.IH[of True] by simp
  qed
  have "rev (d @ xs) \<noteq> []" using assms(1) by simp
  from testChain_parent[OF this parent, of x isDir] show ?case by simp
qed

lemma proper_prefixes:
  "l \<in> set (tl (butlast (prefixes q))) \<Longrightarrow> l \<noteq> [] \<and> strict_prefix l q"
proof (cases q rule: rev_cases)
  case Nil
  assume "l \<in> set (tl (butlast (prefixes q)))"
  then show ?thesis using Nil by simp
next
  case (snoc ys y)
  assume "l \<in> set (tl (butlast (prefixes q)))"
  then have "l \<in> set (tl (prefixes ys))"
    using snoc by simp
  from tl_prefixes[OF this] show ?thesis
    using snoc by (auto simp: strict_prefix_def prefix_snoc)
qed


subsection \<open>The exclusion invariant of a mirror pass\<close>

text \<open>
  C1, as the code has it. Take a relative path \<open>p\<close> for which the compiled rules answer
  that it is ignored when they are asked as the copy loop asks them, with the path written
  without a trailing slash, or which lies below a directory that the rules ignore; and let
  \<open>p\<close> be neither \<open>.git\<close> at the top of the workspace nor below it. After a full mirror pass
  whose clearing of the earlier build root did not fail, nothing is found at \<open>p\<close> under the
  build root: no file or directory has been written there, and the path leads through no
  link.
\<close>

theorem mirror_excludes_ignored:
  assumes "fault env (OpRm BUILD_DIR) = None"
    and "ignores (matches env) (compiledRules env) p
         \<or> (\<exists>d xs. p = d @ xs \<and> d \<noteq> [] \<and> xs \<noteq> [] \<and>
                    testChain (matches env) (compiledRules env) (rev d) True)"
    and "\<not> prefix [''.git''] p"
  shows "\<not> onDisk (files (snd (mirrorWorkspace env w))) (BUILD_DIR @ p)"
proof -
  let ?ok = "\<lambda>q. mirrored (matches env) (compiledRules env) q \<or> q = BUILD_DIR @ [''.git'']"
  let ?w1 = "w\<lparr>console := console w @ [(Log, ''Mirroring workspace to build directory...'')]\<rparr>"
  let ?w2 = "?w1\<lparr>files := (\<lambda>q. if prefix BUILD_DIR q then None else files ?w1 q)\<rparr>"
  let ?rest = "seq [mkdir env BUILD_DIR,
          createGitLink env,
          (\<lambda>w. case createGitignoreFilter env w of
                  (Inl e, w') \<Rightarrow> (Some e, w')
                | (Inr ignoreFilter, w') \<Rightarrow>
                    copyDirectory env (Some ignoreFilter) (Dir (rootStats env) (workspace env))
                      [] BUILD_DIR w'),
          say Log ''Workspace mirrored to build/'']"
  have ign: "ignores (matches env) (compiledRules env) p"
    using assms(2)
  proof
    assume "ignores (matches env) (compiledRules env) p"
    then show ?thesis .
  next
    assume "\<exists>d xs. p = d @ xs \<and> d \<noteq> [] \<and> xs \<noteq> [] \<and>
                    testChain (matches env) (compiledRules env) (rev d) True"
    then obtain d xs where d: "p = d @ xs" "d \<noteq> []" "xs \<noteq> []"
      "testChain (matches env) (compiledRules env) (rev d) True" by blast
    from below_ignored_directory[OF d(2,4), of xs False] d(1,3) show ?thesis
      by (simp add: ignores_def)
  qed
  have split: "mirrorWorkspace env w = ?rest ?w2"
    using assms(1) by (simp add: mirrorWorkspace_def say_def tryCatch_def fsRm_def)
  have root: "mirrored (matches env) (compiledRules env) q" if "q \<noteq> []" "prefix q BUILD_DIR" for q
    using prefix_mirrored[of "[]" "matches env" "compiledRules env" q] that by simp
  have mk: "growing ?ok (mkdir env BUILD_DIR)"
    by (rule growing_mono[OF growing_mkdir[of BUILD_DIR env]]) (use root in blast)
  have ln: "growing ?ok (createGitLink env)"
    by (rule growing_mono[OF growing_createGitLink]) simp
  have cp: "growing ?ok (\<lambda>w. case createGitignoreFilter env w of
                  (Inl e, w') \<Rightarrow> (Some e, w')
                | (Inr ignoreFilter, w') \<Rightarrow>
                    copyDirectory env (Some ignoreFilter) (Dir (rootStats env) (workspace env))
                      [] BUILD_DIR w')"
    by (rule growing_mono[OF growing_mirror_copy]) simp
  have "growing ?ok ?rest"
    by (intro growing_seq_Cons growing_seq_Nil mk ln cp growing_say)
  then have g: "grows ?ok ?w2 (snd (mirrorWorkspace env w))"
    unfolding split growing_def by blast
  have "keepsLinks ?rest"
    by (intro keepsLinks_seq_Cons keepsLinks_seq_Nil keepsLinks_mkdir keepsLinks_createGitLink
        keepsLinks_mirror_copy keepsLinks_say)
  then have k: "linksKept ?w2 (snd (mirrorWorkspace env w))"
    unfolding split keepsLinks_def by blast
  have notgit: "p \<noteq> [''.git'']"
    using assms(3) by auto
  have before: "files ?w2 (BUILD_DIR @ p) = None"
    by simp
  have notok: "\<not> ?ok (BUILD_DIR @ p)"
    using ign notgit ignores_nonempty[OF ign] by (auto simp: mirrored_def)
  have absent: "files (snd (mirrorWorkspace env w)) (BUILD_DIR @ p) = None"
    using g before notok unfolding grows_def by blast
  have nolink: "\<not> isLink (files (snd (mirrorWorkspace env w)) l)"
    if "l \<in> set (tl (butlast (prefixes (BUILD_DIR @ p))))" for l
  proof
    assume lk: "isLink (files (snd (mirrorWorkspace env w)) l)"
    from proper_prefixes[OF that] have l: "l \<noteq> []" "strict_prefix l (BUILD_DIR @ p)" by simp_all
    then obtain r where r: "l = BUILD_DIR @ r" "strict_prefix r p"
      by (cases l) (auto simp: BUILD_DIR_def strict_prefix_def)
    have "files ?w2 l = None"
      using r(1) by simp
    then have "l = BUILD_DIR @ [''.git'']"
      using k lk unfolding linksKept_def by force
    then have "r = [''.git'']" using r(1) by simp
    then show False
      using r(2) assms(3) by (simp add: strict_prefix_def)
  qed
  show ?thesis
    using absent nolink by (auto simp: onDisk_def list_ex_iff)
qed


text \<open>
  The theorem at a workspace whose ignore file excludes \<open>secret.txt\<close>: the file is not in
  the build root, the content file is; and at a workspace whose ignore file has the
  directory pattern \<open>secrets/\<close>: the file below that directory is not in the build root.
\<close>

theorem mirror_excludes_ignored_witness:
  "fault secretEnv (OpRm BUILD_DIR) = None
   \<and> ignores (matches secretEnv) (compiledRules secretEnv) [''secret.txt'']
   \<and> \<not> prefix [''.git''] [''secret.txt'']
   \<and> \<not> onDisk (files (snd (mirrorWorkspace secretEnv emptyWorld))) [''build'', ''secret.txt'']
   \<and> files (snd (mirrorWorkspace secretEnv emptyWorld)) [''build'', ''content'', ''a.md''] =
        Some (FFile ''# A'' plainStats)
   \<and> fault dirPatternEnv (OpRm BUILD_DIR) = None
   \<and> testChain (matches dirPatternEnv) (compiledRules dirPatternEnv) (rev [''secrets'']) True
   \<and> \<not> prefix [''.git''] [''secrets'', ''key.txt'']
   \<and> \<not> onDisk (files (snd (mirrorWorkspace dirPatternEnv emptyWorld)))
          [''build'', ''secrets'', ''key.txt'']"
proof -
  have h1: "fault secretEnv (OpRm BUILD_DIR) = None"
    by (simp add: secretEnv_def plainEnv_def)
  have h2: "ignores (matches secretEnv) (compiledRules secretEnv) [''secret.txt'']"
    by code_simp
  have h3: "\<not> prefix [''.git''] [''secret.txt'']"
    by simp
  have c: "files (snd (mirrorWorkspace secretEnv emptyWorld)) [''build'', ''content'', ''a.md''] =
        Some (FFile ''# A'' plainStats)"
    by code_simp
  have k1: "fault dirPatternEnv (OpRm BUILD_DIR) = None"
    by (simp add: dirPatternEnv_def plainEnv_def)
  have k2: "testChain (matches dirPatternEnv) (compiledRules dirPatternEnv) (rev [''secrets'']) True"
    by code_simp
  have k2': "ignores (matches dirPatternEnv) (compiledRules dirPatternEnv) [''secrets'', ''key.txt'']
         \<or> (\<exists>d xs. [''secrets'', ''key.txt''] = d @ xs \<and> d \<noteq> [] \<and> xs \<noteq> [] \<and>
                    testChain (matches dirPatternEnv) (compiledRules dirPatternEnv) (rev d) True)"
    using k2 by (intro disjI2 exI[of _ "[''secrets'']"] exI[of _ "[''key.txt'']"]) simp
  have k3: "\<not> prefix [''.git''] [''secrets'', ''key.txt'']"
    by simp
  show ?thesis
    using mirror_excludes_ignored[OF h1 disjI1[OF h2] h3, of emptyWorld]
      mirror_excludes_ignored[OF k1 k2' k3, of emptyWorld] h1 h2 c k1 k2
    by (simp add: BUILD_DIR_def)
qed


text \<open>
  C1 as stated fails. The rules exclude \<open>.git\<close>, and after a mirror pass the build root
  holds the link \<open>build/.git\<close> to the repository's directory, through which \<open>build/.git/HEAD\<close>
  is found, a path that the rules exclude too. The rules exclude the directory \<open>secrets\<close>
  by the directory pattern \<open>secrets/\<close>, and the pass, which asks about the path without
  trailing slash, makes \<open>build/secrets\<close>. And where the earlier build root cannot be cleared,
  the copy of \<open>secret.txt\<close> that an earlier pass has left there is still there after the
  pass, although the rules now exclude the file.
\<close>

theorem mirror_link_counterexample:
  "ignores (matches plainEnv) (compiledRules plainEnv) [''.git'']
   \<and> fst (mirrorWorkspace plainEnv emptyWorld) = None
   \<and> files (snd (mirrorWorkspace plainEnv emptyWorld)) [''build'', ''.git''] = Some (FLink ''../.git'')
   \<and> ignores (matches plainEnv) (compiledRules plainEnv) [''.git'', ''HEAD'']
   \<and> onDisk (files (snd (mirrorWorkspace plainEnv emptyWorld))) [''build'', ''.git'', ''HEAD'']
   \<and> sourceNode plainEnv [''.git'', ''HEAD''] = Some (File ''ref: refs/heads/main'' plainStats)
   \<and> excludes dirPatternEnv [''secrets'']
   \<and> files (snd (mirrorWorkspace dirPatternEnv emptyWorld)) [''build'', ''secrets''] =
        Some (FDir plainStats)
   \<and> fault busyEnv (OpRm BUILD_DIR) = Some (Error ''EBUSY: resource busy or locked'')
   \<and> ignores (matches busyEnv) (compiledRules busyEnv) [''secret.txt'']
   \<and> files (snd (mirrorWorkspace busyEnv staleWorld)) [''build'', ''secret.txt''] =
        Some (FFile ''old'' plainStats)"
  by code_simp


subsection \<open>Best-effort failures\<close>

lemma mirror_outcome:
  "fst (mirrorWorkspace env w) =
     fst (mkdir env BUILD_DIR
            (snd (seq [say Log ''Mirroring workspace to build directory...'',
                       tryCatch (fsRm env BUILD_DIR) (\<lambda>error. skip)] w)))
   \<and> (fst (mirrorWorkspace env w) = None \<longrightarrow>
        last (console (snd (mirrorWorkspace env w))) = (Log, ''Workspace mirrored to build/''))"
proof -
  let ?copy = "\<lambda>w. case createGitignoreFilter env w of
                  (Inl e, w') \<Rightarrow> (Some e, w')
                | (Inr ignoreFilter, w') \<Rightarrow>
                    copyDirectory env (Some ignoreFilter) (Dir (rootStats env) (workspace env))
                      [] BUILD_DIR w'"
  let ?pre = "seq [say Log ''Mirroring workspace to build directory...'',
                   tryCatch (fsRm env BUILD_DIR) (\<lambda>error. skip)]"
  have pre_ok: "fst (?pre w) = None"
    by (simp add: say_def tryCatch_def skip_def split: prod.splits option.splits)
  obtain w2 where w2: "?pre w = (None, w2)"
    using pre_ok by (cases "?pre w") simp
  have m: "mirrorWorkspace env w =
           seq [mkdir env BUILD_DIR, createGitLink env, ?copy, say Log ''Workspace mirrored to build/''] w2"
    using seq_append[of "[say Log ''Mirroring workspace to build directory...'',
                   tryCatch (fsRm env BUILD_DIR) (\<lambda>error. skip)]"
        "[mkdir env BUILD_DIR, createGitLink env, ?copy, say Log ''Workspace mirrored to build/'']" w] w2
    by (simp add: mirrorWorkspace_def)
  obtain r3 w3 where w3: "mkdir env BUILD_DIR w2 = (r3, w3)" by (cases "mkdir env BUILD_DIR w2")
  obtain w4 where w4: "createGitLink env w3 = (None, w4)"
    using createGitLink_returns[of env w3] by (cases "createGitLink env w3") simp
  have copy_ok: "fst (?copy w4) = None"
    by (simp add: createGitignoreFilter_result copy_returns del: copyDirectory.simps)
  obtain w5 where w5: "?copy w4 = (None, w5)"
    using copy_ok by (cases "?copy w4") simp
  show ?thesis
  proof (cases r3)
    case None
    have "mirrorWorkspace env w = (None, w5\<lparr>console := console w5 @ [(Log, ''Workspace mirrored to build/'')]\<rparr>)"
      unfolding m using None w3 w4 w5 by (simp add: say_def)
    then show ?thesis using None w2 w3 by simp
  next
    case (Some e)
    have "mirrorWorkspace env w = (Some e, w3)"
      unfolding m using Some w3 by simp
    then show ?thesis using Some w2 w3 by simp
  qed
qed


text \<open>
  C8. Best-effort failures do not abort a phase. If the ignore file cannot be read, the
  filter is the static rules and a warning is logged. Making the link never throws; if
  the attempt fails (the symbolic link cannot be made or, on Windows, \<open>mklink\<close> closes with
  a code other than 0), no file has changed and a warning is logged, and the mirror pass
  goes on: it fails only where making the build root itself fails, and otherwise ends with
  its closing message. Copying a file never throws; whatever fails in it, a warning is
  logged; if the copy of the bytes fails, the state is the one left by making the parent
  directory, so the file is not written; and the loop over the entries of a directory goes
  on with the remaining entries. Copying a directory and the loop over its entries never
  throw.
\<close>

theorem best_effort_failures:
  "(fault env (OpReadFile [''.gitignore'']) = Some e1 \<longrightarrow>
      createGitignoreFilter env w =
        (Inr staticRules,
         w\<lparr>console := console w @
              [(Warn, ''Could not read .gitignore, using default exclusions'')]\<rparr>))
   \<and> fst (createGitLink env w) = None
   \<and> (createGitLinkTry env w = (Some e2, w2) \<longrightarrow>
        files w2 = files w \<and>
        createGitLink env w =
          (None, w2\<lparr>console := console w2 @
                   [(Warn, ''Warning: Could not create git symlink: '' @ message e2)]\<rparr>))
   \<and> (\<not> win32 env \<and> fault env (OpSymlink (BUILD_DIR @ [''.git''])) = Some e2 \<longrightarrow>
        createGitLinkTry env w = (Some e2, w))
   \<and> (win32 env \<and> childEnd (mklink env) = Closed code \<and> code \<noteq> Some 0 \<longrightarrow>
        createGitLinkTry env w = (Some (Error (''mklink failed with code '' @ showCode code)), w))
   \<and> fst (mirrorWorkspace env w) =
        fst (mkdir env BUILD_DIR
               (snd (seq [say Log ''Mirroring workspace to build directory...'',
                          tryCatch (fsRm env BUILD_DIR) (\<lambda>error. skip)] w)))
   \<and> (fst (mirrorWorkspace env w) = None \<longrightarrow>
        last (console (snd (mirrorWorkspace env w))) = (Log, ''Workspace mirrored to build/''))
   \<and> fst (copyFile env src dest w) = None
   \<and> (copyFileTry env src dest w = (Some e3, w3) \<longrightarrow>
        copyFile env src dest w =
          (None, w3\<lparr>console := console w3 @
                   [(Warn, ''Warning: Could not copy '' @ pathString src @ '': '' @ message e3)]\<rparr>))
   \<and> (fault env (OpCopyFile src dest) = Some e3 \<and> mkdir env (butlast dest) w = (None, w1) \<longrightarrow>
        copyFileTry env src dest w = (Some e3, w1))
   \<and> fst (copyDirectory env ignoreFilter node src dest w) = None
   \<and> fst (copyEntries env ignoreFilter entries src dest w) = None
   \<and> (\<not> (case ignoreFilter of None \<Rightarrow> False
                              | Some ig \<Rightarrow> ignores (matches env) ig (src @ [name])) \<longrightarrow>
        copyEntries env ignoreFilter ((name, File bytes st) # entries) src dest w =
          copyEntries env ignoreFilter entries src dest
            (snd (copyFile env (src @ [name]) (dest @ [name]) w)))"
proof -
  have a: "createGitignoreFilter env w =
        (Inr staticRules,
         w\<lparr>console := console w @
              [(Warn, ''Could not read .gitignore, using default exclusions'')]\<rparr>)"
    if "fault env (OpReadFile [''.gitignore'']) = Some e1"
    using that by (simp add: createGitignoreFilter_def say_def)
  have b1: "createGitLinkTry env w = (Some e2, w)"
    if "\<not> win32 env" "fault env (OpSymlink (BUILD_DIR @ [''.git''])) = Some e2"
    using that by (simp add: createGitLinkTry_def fsSymlink_def)
  have b2: "createGitLinkTry env w = (Some (Error (''mklink failed with code '' @ showCode code)), w)"
    if "win32 env" "childEnd (mklink env) = Closed code" "code \<noteq> Some 0"
    using that by (simp add: createGitLinkTry_def awaitChild_def)
  have b3: "files w2 = files w \<and>
        createGitLink env w =
          (None, w2\<lparr>console := console w2 @
                   [(Warn, ''Warning: Could not create git symlink: '' @ message e2)]\<rparr>)"
    if t: "createGitLinkTry env w = (Some e2, w2)"
  proof
    show "files w2 = files w"
    proof (cases "win32 env")
      case True
      then show ?thesis
        using t
        by (auto simp: createGitLinkTry_def awaitChild_def say_def
            split: childEnd.splits if_splits)
    next
      case False
      then show ?thesis
        using t
        by (auto simp: createGitLinkTry_def fsSymlink_def say_def
            split: option.splits prod.splits)
    qed
    show "createGitLink env w =
          (None, w2\<lparr>console := console w2 @
                   [(Warn, ''Warning: Could not create git symlink: '' @ message e2)]\<rparr>)"
      using t by (simp add: createGitLink_def tryCatch_def say_def)
  qed
  have c1: "copyFileTry env src dest w = (Some e3, w1)"
    if "fault env (OpCopyFile src dest) = Some e3" "mkdir env (butlast dest) w = (None, w1)"
    using that by (simp add: copyFileTry_def fsCopyFile_def)
  have c2: "copyFile env src dest w =
          (None, w3\<lparr>console := console w3 @
                   [(Warn, ''Warning: Could not copy '' @ pathString src @ '': '' @ message e3)]\<rparr>)"
    if "copyFileTry env src dest w = (Some e3, w3)"
    using that by (simp add: copyFile_def tryCatch_def say_def)
  have d: "copyEntries env ignoreFilter ((name, File bytes st) # entries) src dest w =
          copyEntries env ignoreFilter entries src dest
            (snd (copyFile env (src @ [name]) (dest @ [name]) w))"
    if "\<not> (case ignoreFilter of None \<Rightarrow> False
                              | Some ig \<Rightarrow> ignores (matches env) ig (src @ [name]))"
    using that copyFile_returns[of env "src @ [name]" "dest @ [name]" w]
    by (cases "copyFile env (src @ [name]) (dest @ [name]) w") (simp add: Let_def)
  show ?thesis
    using a b1 b2 b3 c1 c2 d mirror_outcome[of env w] createGitLink_returns[of env w]
      copyFile_returns[of env src dest w] copy_returns[of env ignoreFilter _ src dest w]
    by blast
qed

text \<open>
  The theorem at a run where the ignore file cannot be read, the link cannot be made and
  \<open>secret.txt\<close> is locked: three warnings, the content file copied, the pass completed.
\<close>

theorem best_effort_failures_witness:
  "fault lockedEnv (OpReadFile [''.gitignore'']) = Some (Error ''EBUSY: resource busy or locked'')
   \<and> createGitignoreFilter lockedEnv emptyWorld =
       (Inr staticRules,
        emptyWorld\<lparr>console := console emptyWorld @
          [(Warn, ''Could not read .gitignore, using default exclusions'')]\<rparr>)
   \<and> \<not> win32 lockedEnv
   \<and> fault lockedEnv (OpSymlink (BUILD_DIR @ [''.git''])) =
       Some (Error ''EBUSY: resource busy or locked'')
   \<and> createGitLinkTry lockedEnv emptyWorld =
       (Some (Error ''EBUSY: resource busy or locked''), emptyWorld)
   \<and> createGitLink lockedEnv emptyWorld =
       (None, emptyWorld\<lparr>console := console emptyWorld @
          [(Warn, ''Warning: Could not create git symlink: '' @
                  message (Error ''EBUSY: resource busy or locked''))]\<rparr>)
   \<and> fst (mirrorWorkspace lockedEnv emptyWorld) = None
   \<and> console (snd (mirrorWorkspace lockedEnv emptyWorld)) =
       [(Log, ''Mirroring workspace to build directory...''),
        (Warn, ''Warning: Could not create git symlink: EBUSY: resource busy or locked''),
        (Warn, ''Could not read .gitignore, using default exclusions''),
        (Warn, ''Warning: Could not copy secret.txt: EBUSY: resource busy or locked''),
        (Log, ''Workspace mirrored to build/'')]
   \<and> files (snd (mirrorWorkspace lockedEnv emptyWorld)) [''build'', ''content'', ''a.md''] =
       Some (FFile ''# A'' plainStats)
   \<and> files (snd (mirrorWorkspace lockedEnv emptyWorld)) [''build'', ''secret.txt''] = None"
proof -
  have h1: "fault lockedEnv (OpReadFile [''.gitignore'']) =
              Some (Error ''EBUSY: resource busy or locked'')"
    by (simp add: lockedEnv_def)
  have h2: "\<not> win32 lockedEnv"
    "fault lockedEnv (OpSymlink (BUILD_DIR @ [''.git''])) =
       Some (Error ''EBUSY: resource busy or locked'')"
    by (simp_all add: lockedEnv_def plainEnv_def BUILD_DIR_def)
  have m: "fst (mirrorWorkspace lockedEnv emptyWorld) = None"
    by code_simp
  have c: "console (snd (mirrorWorkspace lockedEnv emptyWorld)) =
       [(Log, ''Mirroring workspace to build directory...''),
        (Warn, ''Warning: Could not create git symlink: EBUSY: resource busy or locked''),
        (Warn, ''Could not read .gitignore, using default exclusions''),
        (Warn, ''Warning: Could not copy secret.txt: EBUSY: resource busy or locked''),
        (Log, ''Workspace mirrored to build/'')]"
    by code_simp
  have f: "files (snd (mirrorWorkspace lockedEnv emptyWorld)) [''build'', ''content'', ''a.md''] =
       Some (FFile ''# A'' plainStats)"
    "files (snd (mirrorWorkspace lockedEnv emptyWorld)) [''build'', ''secret.txt''] = None"
    by code_simp+
  show ?thesis
    using best_effort_failures[where env = lockedEnv and w = emptyWorld
        and ?e1.0 = "Error ''EBUSY: resource busy or locked''"
        and ?e2.0 = "Error ''EBUSY: resource busy or locked''"
        and ?w2.0 = emptyWorld]
      h1 h2 m c f
    by simp
qed

subsection \<open>The order of the static and the project rules\<close>

text \<open>
  C4 fails on the code: the static rules are added before the rules of the ignore file,
  not after them. With the single line \<open>!build\<close> in the ignore file, the rules end with the
  negated pattern, and the filter, which ignores \<open>build\<close> under the static rules alone, no
  longer ignores it.
\<close>

theorem static_rule_reincluded:
  "createGitignoreFilter reincludeEnv emptyWorld =
     (Inr (staticRules @ [\<lparr>negative = True, pattern = ''build''\<rparr>]), emptyWorld)
   \<and> ignores literalMatch staticRules [''build'']
   \<and> \<not> ignores literalMatch (staticRules @ [\<lparr>negative = True, pattern = ''build''\<rparr>]) [''build'']"
  by (simp add: createGitignoreFilter_def reincludeEnv_def plainEnv_def addPatterns_def
      checkPattern_def createRule_def staticRules_def ignores_def testOne_def literalMatch_def)



subsection \<open>Debouncing\<close>








subsection \<open>Failure of the external processes\<close>

lemma awaitChild_fail:
  "childEnd c = Closed code \<Longrightarrow> code \<noteq> Some 0 \<Longrightarrow>
   awaitChild c True failure w =
     (Some (Error (failure @ showCode code)),
      w\<lparr>console := console w @ map (Pair Child) (childOutput c)\<rparr>)"
  by (simp add: awaitChild_def)

lemma awaitChild_ok:
  "childEnd c = Closed (Some 0) \<Longrightarrow>
   awaitChild c True failure w = (None, w\<lparr>console := console w @ map (Pair Child) (childOutput c)\<rparr>)"
  by (simp add: awaitChild_def)

lemma main_split:
  "main env w =
     tryCatch (\<lambda>w. case beforeBuild env w of
                     (None, w1) \<Rightarrow> seq [runQuartzBuild env,
                                       (if \<not> watch env \<and> \<not> serve env then say Log (CHR 0x0A # ''Build completed!'') else skip)] w1
                   | (Some e, w1) \<Rightarrow> (Some e, w1))
       (\<lambda>error. seq [say Err (''Build failed: '' @ message error), processExit 1]) w"
  unfolding main_def beforeBuild_def tryCatch_def
  using seq_append[of "[(if \<not> noBuildDir env then mirrorWorkspace env else skip),
          customizations env,
          (if (watch env \<or> serve env) \<and> \<not> noBuildDir env then setupWatcher env else skip)]"
       "[runQuartzBuild env,
         (if \<not> watch env \<and> \<not> serve env then say Log (CHR 0x0A # ''Build completed!'') else skip)]" w]
  by simp


text \<open>
  C9, as the code has it. When the phases before the external build have completed and
  the dependency install, or after a successful install the renderer, closes with a code
  other than 0, the build is fatal: the output of the processes has gone to the terminal
  as it is (their standard streams are inherited, nothing is captured), the line
  \<open>Build failed:\<close> with the message that names the exit code is printed, and the process
  exits with status 1, whatever the exit code of the external process was.
\<close>

theorem downstream_failure_exits_with_1:
  assumes "beforeBuild env w = (None, w1)"
    and "(childEnd (npmInstall env) = Closed code \<and> failure = ''npm install failed with code '' \<and>
          out = childOutput (npmInstall env))
       \<or> (childEnd (npmInstall env) = Closed (Some 0) \<and> childEnd (quartzBuild env) = Closed code \<and>
          failure = ''Quartz build failed with code '' \<and>
          out = childOutput (npmInstall env) @ childOutput (quartzBuild env))"
    and "code \<noteq> Some 0"
  shows "main env w =
           (None,
            w1\<lparr>console := console w1 @
                 [(Log, CHR 0x0A # ''Running Quartz build...''),
                  (Log, ''Installing dependencies in '' @
                        pathString (if noBuildDir env then [''quartz_repo'']
                                    else BUILD_DIR @ [''quartz_repo'']) @ ''...'')] @
                 map (Pair Child) out @
                 [(Err, ''Build failed: '' @ failure @ showCode code)],
               exited := Some 1\<rparr>)"
  using assms(2)
proof
  assume a: "childEnd (npmInstall env) = Closed code \<and> failure = ''npm install failed with code '' \<and>
          out = childOutput (npmInstall env)"
  show ?thesis
    unfolding main_split
    using a assms(1,3)
    by (simp add: tryCatch_def runQuartzBuild_def installDependencies_def say_def processExit_def
        awaitChild_fail Let_def)
next
  assume a: "childEnd (npmInstall env) = Closed (Some 0) \<and> childEnd (quartzBuild env) = Closed code \<and>
          failure = ''Quartz build failed with code '' \<and>
          out = childOutput (npmInstall env) @ childOutput (quartzBuild env)"
  show ?thesis
    unfolding main_split
    using a assms(1,3)
    by (simp add: tryCatch_def runQuartzBuild_def installDependencies_def say_def processExit_def
        awaitChild_fail awaitChild_ok Let_def)
qed


text \<open>The theorem at a run whose dependency install prints a line and exits with code 2.\<close>

theorem downstream_failure_exits_with_1_witness:
  "fst (beforeBuild failingInstallEnv emptyWorld) = None
   \<and> childEnd (npmInstall failingInstallEnv) = Closed (Some 2)
   \<and> main failingInstallEnv emptyWorld =
       (None,
        (snd (beforeBuild failingInstallEnv emptyWorld))
          \<lparr>console := console (snd (beforeBuild failingInstallEnv emptyWorld)) @
             [(Log, CHR 0x0A # ''Running Quartz build...''),
              (Log, ''Installing dependencies in build/quartz_repo...''),
              (Child, ''npm ERR! code ENOENT''),
              (Err, ''Build failed: npm install failed with code 2'')],
           exited := Some 1\<rparr>)"
proof -
  have h0: "fst (beforeBuild failingInstallEnv emptyWorld) = None"
    by code_simp
  then have h1: "beforeBuild failingInstallEnv emptyWorld =
               (None, snd (beforeBuild failingInstallEnv emptyWorld))"
    by (simp add: prod_eq_iff)
  have h2: "(childEnd (npmInstall failingInstallEnv) = Closed (Some 2) \<and>
             ''npm install failed with code '' = ''npm install failed with code '' \<and>
             [''npm ERR! code ENOENT''] = childOutput (npmInstall failingInstallEnv))
            \<or> (childEnd (npmInstall failingInstallEnv) = Closed (Some 0) \<and>
               childEnd (quartzBuild failingInstallEnv) = Closed (Some 2) \<and>
               ''npm install failed with code '' = ''Quartz build failed with code '' \<and>
               [''npm ERR! code ENOENT''] =
                 childOutput (npmInstall failingInstallEnv) @ childOutput (quartzBuild failingInstallEnv))"
    by (simp add: failingInstallEnv_def)
  have h3: "Some (2::int) \<noteq> Some 0" by simp
  have s: "showCode (Some 2) = ''2''"
    by (simp add: showCode_def showInt_def showNat.simps[of 2])
  have n: "noBuildDir failingInstallEnv = False"
    by (simp add: failingInstallEnv_def plainEnv_def)
  show ?thesis
    using downstream_failure_exits_with_1[OF h1 h2 h3] h0 s n
    by (simp add: failingInstallEnv_def pathString_def BUILD_DIR_def)
qed


text \<open>
  C9 as stated fails: the dependency install exits with code 2, and the build process
  exits with status 1.
\<close>

theorem exit_status_counterexample:
  "childEnd (npmInstall failingInstallEnv) = Closed (Some 2)
   \<and> exited (snd (main failingInstallEnv emptyWorld)) = Some 1
   \<and> console (snd (main failingInstallEnv emptyWorld)) =
       [(Log, ''Mirroring workspace to build directory...''),
        (Log, ''Created git symlink for accurate file dates''),
        (Log, ''Workspace mirrored to build/''),
        (Log, CHR 0x0A # ''Running Quartz build...''),
        (Log, ''Installing dependencies in build/quartz_repo...''),
        (Child, ''npm ERR! code ENOENT''),
        (Err, ''Build failed: npm install failed with code 2'')]"
  by code_simp


end
